theory Spec2Isabelle
  imports Main "HOL-Library.Word"
begin

section \<open>The logistics engine: a shallow embedding\<close>

text \<open>
  The development follows the Go package \<^verbatim>\<open>logistics\<close> (the service instance with its
  constructor, its round loop \<^verbatim>\<open>Run\<close> and the per-unit task \<^verbatim>\<open>processDelivery\<close>) and the
  package \<^verbatim>\<open>client\<close> (the gRPC client). Mutation is explicit state passing, a panic or an
  error return is the left summand of a sum, and what the program takes from outside
  (the outcome of an RPC, the next output of \<^verbatim>\<open>math/rand\<close>, the clock) is an argument.
\<close>

subsection \<open>Machine integers and errors\<close>

text \<open>Go's \<^verbatim>\<open>int\<close> and \<^verbatim>\<open>time.Duration\<close> are 64-bit two's complement: arithmetic wraps.\<close>

definition int64 :: "int \<Rightarrow> int" where
  "int64 x = (x + 2 ^ 63) mod 2 ^ 64 - 2 ^ 63"

datatype error =
    IntnPanic
  | NilPointer
  | IndexOutOfRange
  | ApiError string
  | PopulateFailed string
  | ConnectFailed error

text \<open>
  \<^verbatim>\<open>rand.Intn(n)\<close> panics when \<open>n \<le> 0\<close> and otherwise returns a value of \<open>[0, n)\<close>.
  The generator's next output \<open>g\<close> is an argument; every value of the range is returned
  for some \<open>g\<close>, and no other value is.
\<close>

definition Intn :: "int \<Rightarrow> nat \<Rightarrow> error + int" where
  "Intn n g = (if n \<le> 0 then Inl IntnPanic else Inr (int g mod n))"

text \<open>\<^verbatim>\<open>%d\<close> of \<^verbatim>\<open>fmt\<close> and \<^verbatim>\<open>strconv.FormatUint(_, 10)\<close>: decimal digits.\<close>

definition digit :: "nat \<Rightarrow> char" where
  "digit n = ''0123456789'' ! n"

fun decimal :: "nat \<Rightarrow> string" where
  "decimal n =
     (if n < 10 then [digit n]
      else decimal (n div 10) @ [digit (n mod 10)])"

definition fmt_d :: "int \<Rightarrow> string" where
  "fmt_d i = (if i < 0 then CHR ''-'' # decimal (nat (- i)) else decimal (nat i))"

definition FormatUint :: "nat \<Rightarrow> string" where
  "FormatUint n = decimal n"

subsection \<open>Data model\<close>

text \<open>
  \<^verbatim>\<open>model.Coordinate\<close> and \<^verbatim>\<open>model.GraphNode\<close> with the fields the engine reads and
  writes. \<^verbatim>\<open>Metadata\<close> is compared with \<^verbatim>\<open>true\<close> and set to \<^verbatim>\<open>true\<close>: the flag is whether
  it holds \<^verbatim>\<open>true\<close> (the unit is Arrived) or not (Pending).
\<close>

record Coordinate =
  X :: int
  Y :: int

record GraphNode =
  ID :: int
  Name :: string
  Coordinate :: Coordinate
  Metadata :: bool

text \<open>
  Modelled from the spec: package \<^verbatim>\<open>model\<close> is not among the sources. An operation has
  a name and two counts that only grow, \<^verbatim>\<open>A\<close> (attempts) and \<^verbatim>\<open>B\<close> (errors) (spec 3).
  \<^verbatim>\<open>Run\<close> prints them with \<^verbatim>\<open>strconv.FormatUint\<close>, as unsigned 64-bit numbers; the counts
  are natural numbers here, and a run that records \<open>2 ^ 64\<close> attempts of one operation is
  outside the model.
\<close>

record Operation =
  OpName :: string
  A :: nat
  B :: nat

record Statistics =
  ExecTime :: int
  Operation :: "Operation list"

text \<open>
  Modelled from the spec: \<^verbatim>\<open>AddA\<close> records an attempt and \<^verbatim>\<open>AddB\<close> an error; each adds
  one to its count (spec 4.4, RecordAttempt and RecordError).
\<close>

definition AddA :: "Operation \<Rightarrow> Operation" where
  "AddA o' = o'\<lparr>A := A o' + 1\<rparr>"

definition AddB :: "Operation \<Rightarrow> Operation" where
  "AddB o' = o'\<lparr>B := B o' + 1\<rparr>"

text \<open>The two requests of the API, with the fields as converted by the caller.\<close>

datatype Request =
    MoveUnitRequest (CargoUnitId: "64 word") (LocationX: "32 word") (LocationY: "32 word")
  | UnitReachedWarehouseRequest (LocationX: "32 word") (LocationY: "32 word")
      (CargoUnitId: "64 word") (WarehouseId: "64 word") (Message: string)

subsection \<open>The world operator\<close>

text \<open>
  The operator owns the warehouses and the delivery units. A \<^verbatim>\<open>*model.GraphNode\<close> of a
  unit is its position in \<open>deliveryUnits\<close>.
\<close>

record WorldOperator =
  warehouses :: "GraphNode list"
  deliveryUnits :: "GraphNode list"

type_synonym route = "Coordinate list \<Rightarrow> Coordinate \<Rightarrow> Coordinate"

text \<open>
  Modelled from the spec: package \<^verbatim>\<open>operator\<close> is not among the sources.
  \<^verbatim>\<open>GetDeliveryUnit\<close> lists all units (spec 6, ListDeliveryUnits).
\<close>

definition GetDeliveryUnit :: "WorldOperator \<Rightarrow> nat list" where
  "GetDeliveryUnit wo = [0 ..< length (deliveryUnits wo)]"

text \<open>
  Modelled from the spec: \<^verbatim>\<open>MoveDeliveryUnitToNearestWarehouse\<close> replaces the unit's
  coordinate by the next one on its way to the nearest warehouse and returns it (spec 6,
  AdvanceTowardNearestWarehouse). The routing rule \<open>r\<close>, from the warehouses' coordinates
  and the unit's to the next coordinate, is an argument. The operator is handed the
  unit's numeric id, which identifies the unit (spec 3); here it is handed the unit.
\<close>

definition MoveDeliveryUnitToNearestWarehouse ::
    "route \<Rightarrow> nat \<Rightarrow> WorldOperator \<Rightarrow> WorldOperator \<times> Coordinate" where
  "MoveDeliveryUnitToNearestWarehouse r u wo =
     (let unit = deliveryUnits wo ! u;
          c = r (map Coordinate (warehouses wo)) (Coordinate unit)
      in (wo\<lparr>deliveryUnits := (deliveryUnits wo)[u := unit\<lparr>Coordinate := c\<rparr>]\<rparr>, c))"

text \<open>
  Modelled from the spec: \<^verbatim>\<open>FindEntityByCoordinate(c, model.Warehouses)\<close> is the
  warehouse at \<open>c\<close>, or nil (spec 6, FindEntityAt).
\<close>

definition FindEntityByCoordinate :: "Coordinate \<Rightarrow> WorldOperator \<Rightarrow> GraphNode option" where
  "FindEntityByCoordinate c wo = find (\<lambda>w. Coordinate w = c) (warehouses wo)"

subsection \<open>The client\<close>

text \<open>
  \<^verbatim>\<open>APILogisticsClient.MoveUnit\<close> and \<^verbatim>\<open>UnitReachedWarehouse\<close> return the error of the
  generated stub, or nil. The stub's answer is an argument.
\<close>

definition MoveUnit :: "error option \<Rightarrow> error option" where
  "MoveUnit moveRespErr = (case moveRespErr of Some e \<Rightarrow> Some e | None \<Rightarrow> None)"

definition UnitReachedWarehouse :: "error option \<Rightarrow> error option" where
  "UnitReachedWarehouse moveRespErr = (case moveRespErr of Some e \<Rightarrow> Some e | None \<Rightarrow> None)"

subsection \<open>The service instance\<close>

text \<open>
  The fields of \<^verbatim>\<open>ServiceInstance\<close> that the round loop uses, and two traces of what a
  task does to the outside: the requests handed to the client, in order, and the
  durations slept (nanoseconds).
\<close>

record ServiceInstance =
  worldOperator :: WorldOperator
  maxMoveWaitNumber :: int
  reportTable :: "string list list"
  statistics :: Statistics
  sent :: "Request list"
  slept :: "int list"

text \<open>What one task takes from outside: the generator's output and the stubs' answers.\<close>

record Outcome =
  draw :: nat
  moveResp :: "error option"
  reachResp :: "error option"

text \<open>
  Line 165 of \<^verbatim>\<open>processDelivery\<close>: \<^verbatim>\<open>rand.Intn(s.maxMoveWaitNumber+1) + 1\<close>, the value drawn
  from the ceiling \<open>c\<close> and the generator's output.
\<close>

definition drawCeiling :: "int \<Rightarrow> nat \<Rightarrow> error + int" where
  "drawCeiling c g =
     (case Intn (int64 (c + 1)) g of
        Inl e \<Rightarrow> Inl e
      | Inr r \<Rightarrow> Inr (int64 (r + 1)))"

text \<open>
  Lines 166 to 168: \<^verbatim>\<open>>> 1\<close> on a value that is at least 1 halves it, rounding down.
\<close>

definition halve :: "int \<Rightarrow> int" where
  "halve m = (if m \<ge> 1 then m div 2 else m)"

text \<open>Lines 165 to 168: the next pacing ceiling.\<close>

definition nextCeiling :: "int \<Rightarrow> nat \<Rightarrow> error + int" where
  "nextCeiling c g =
     (case drawCeiling c g of
        Inl e \<Rightarrow> Inl e
      | Inr m \<Rightarrow> Inr (halve m))"

text \<open>Line 164: \<^verbatim>\<open>time.Duration(c) * time.Microsecond\<close>, in nanoseconds.\<close>

definition waitDuration :: "int \<Rightarrow> int" where
  "waitDuration c = int64 (int64 c * 1000)"

text \<open>Lines 164 to 168: sleep, then replace the ceiling.\<close>

definition pace :: "nat \<Rightarrow> ServiceInstance \<Rightarrow> error + ServiceInstance" where
  "pace g s =
     (let s1 = s\<lparr>slept := slept s @ [waitDuration (maxMoveWaitNumber s)]\<rparr>
      in case nextCeiling (maxMoveWaitNumber s) g of
           Inl e \<Rightarrow> Inl e
         | Inr c \<Rightarrow> Inr (s1\<lparr>maxMoveWaitNumber := c\<rparr>))"

text \<open>\<^verbatim>\<open>s.statistics.Operation[k].f()\<close>: indexing past the slice panics.\<close>

definition withOperation ::
    "(Operation \<Rightarrow> Operation) \<Rightarrow> nat \<Rightarrow> ServiceInstance \<Rightarrow> error + ServiceInstance" where
  "withOperation f k s =
     (let ops = Operation (statistics s)
      in if k < length ops
         then Inr (s\<lparr>statistics := (statistics s)\<lparr>Operation := ops[k := f (ops ! k)]\<rparr>\<rparr>)
         else Inl IndexOutOfRange)"

definition unitMessage :: "GraphNode \<Rightarrow> Coordinate \<Rightarrow> string" where
  "unitMessage unit newCoordinate =
     Name unit @ '' moving to - X:'' @ fmt_d (X newCoordinate) @ '', Y:'' @ fmt_d (Y newCoordinate)"

definition setReached :: "nat \<Rightarrow> WorldOperator \<Rightarrow> WorldOperator" where
  "setReached u wo =
     wo\<lparr>deliveryUnits := (deliveryUnits wo)[u := (deliveryUnits wo ! u)\<lparr>Metadata := True\<rparr>]\<rparr>"

text \<open>
  \<^verbatim>\<open>processDelivery\<close>, for the unit \<open>u\<close>. A unit pointer that addresses no node is nil, and
  reading through it panics. The log lines are not part of the state.
\<close>

definition processDelivery ::
    "route \<Rightarrow> Outcome \<Rightarrow> nat \<Rightarrow> ServiceInstance \<Rightarrow> error + ServiceInstance" where
  "processDelivery r out u s =
     (case pace (draw out) s of
        Inl e \<Rightarrow> Inl e
      | Inr s1 \<Rightarrow>
          if length (deliveryUnits (worldOperator s1)) \<le> u then Inl NilPointer
          else
            (let unit = deliveryUnits (worldOperator s1) ! u;
                 oldCoordinate = Coordinate unit;
                 (wo, newCoordinate) = MoveDeliveryUnitToNearestWarehouse r u (worldOperator s1);
                 s2 = s1\<lparr>worldOperator := wo\<rparr>
             in case withOperation AddA 0 s2 of
                  Inl e \<Rightarrow> Inl e
                | Inr s3 \<Rightarrow>
                    (let s4 = s3\<lparr>sent := sent s3 @
                                 [MoveUnitRequest (word_of_int (ID unit))
                                    (word_of_int (X newCoordinate)) (word_of_int (Y newCoordinate))]\<rparr>
                     in case MoveUnit (moveResp out) of
                          Some moveErr \<Rightarrow> withOperation AddB 0 s4
                        | None \<Rightarrow>
                            if newCoordinate \<noteq> oldCoordinate then Inr s4
                            else
                              (case FindEntityByCoordinate newCoordinate (worldOperator s4) of
                                 None \<Rightarrow> Inr s4
                               | Some warehouse \<Rightarrow>
                                   (case withOperation AddA 1 s4 of
                                      Inl e \<Rightarrow> Inl e
                                    | Inr s5 \<Rightarrow>
                                        (let s6 = s5\<lparr>sent := sent s5 @
                                                     [UnitReachedWarehouseRequest
                                                        (word_of_int (X newCoordinate))
                                                        (word_of_int (Y newCoordinate))
                                                        (word_of_int (ID unit))
                                                        (word_of_int (ID warehouse))
                                                        (unitMessage unit newCoordinate @
                                                           '' - Reached Objective.'')]\<rparr>
                                         in case UnitReachedWarehouse (reachResp out) of
                                              Some reachErr \<Rightarrow> withOperation AddB 1 s6
                                            | None \<Rightarrow>
                                                Inr (s6\<lparr>worldOperator :=
                                                          setReached u (worldOperator s6)\<rparr>)))))))"


text \<open>
  A sequence of task steps, each for some unit with some outcome. A panic ends the
  process.
\<close>

fun tasks :: "route \<Rightarrow> (Outcome \<times> nat) list \<Rightarrow> ServiceInstance \<Rightarrow> error + ServiceInstance" where
  "tasks r [] s = Inr s"
| "tasks r (x # xs) s =
     (case processDelivery r (fst x) (snd x) s of
        Inl e \<Rightarrow> Inl e
      | Inr s' \<Rightarrow> tasks r xs s')"

subsection \<open>The round loop\<close>

text \<open>Lines 120 to 127 of \<^verbatim>\<open>Run\<close>: the units that hold \<^verbatim>\<open>true\<close>, counted.\<close>

definition unitsReachedObjective :: "nat list \<Rightarrow> ServiceInstance \<Rightarrow> nat" where
  "unitsReachedObjective us s =
     length (filter (\<lambda>u. Metadata (deliveryUnits (worldOperator s) ! u)) us)"

text \<open>
  Lines 134 to 144: one task for every unit that does not hold \<^verbatim>\<open>true\<close>, and the wait
  for all of them. The slice holds the pointers of \<^verbatim>\<open>GetDeliveryUnit\<close>, so the tasks of a
  round work on different units; they are run one after the other, in the order of the
  slice. \<open>env u\<close> is what the task of unit \<open>u\<close> takes from outside.
\<close>

fun spawn :: "route \<Rightarrow> (nat \<Rightarrow> Outcome) \<Rightarrow> nat list \<Rightarrow> ServiceInstance \<Rightarrow> error + ServiceInstance" where
  "spawn r env [] s = Inr s"
| "spawn r env (u # us) s =
     (if Metadata (deliveryUnits (worldOperator s) ! u) then spawn r env us s
      else
        (case processDelivery r (env u) u s of
           Inl e \<Rightarrow> Inl e
         | Inr s' \<Rightarrow> spawn r env us s'))"

text \<open>
  Lines 118 to 145: the loop has no bound. \<open>k\<close> counts the rounds run so far, and
  \<open>env k\<close> is the outside of round \<open>k\<close>. The value \<open>None\<close> is a loop that never exits.
\<close>

partial_function (option) roundLoop ::
    "route \<Rightarrow> (nat \<Rightarrow> nat \<Rightarrow> Outcome) \<Rightarrow> nat list \<Rightarrow> nat \<Rightarrow> ServiceInstance
       \<Rightarrow> (error + nat \<times> ServiceInstance) option" where
  "roundLoop r env us k s =
     (if unitsReachedObjective us s = length us then Some (Inr (k, s))
      else
        (case spawn r (env k) us s of
           Inl e \<Rightarrow> Some (Inl e)
         | Inr s' \<Rightarrow> roundLoop r env us (Suc k) s'))"

declare roundLoop.simps [code]

text \<open>The first \<open>n\<close> rounds from round \<open>k\<close> on, whatever the flags are.\<close>

fun rounds :: "route \<Rightarrow> (nat \<Rightarrow> nat \<Rightarrow> Outcome) \<Rightarrow> nat list \<Rightarrow> nat \<Rightarrow> nat \<Rightarrow> ServiceInstance
       \<Rightarrow> error + ServiceInstance" where
  "rounds r env us k 0 s = Inr s"
| "rounds r env us k (Suc n) s =
     (case spawn r (env k) us s of
        Inl e \<Rightarrow> Inl e
      | Inr s' \<Rightarrow> rounds r env us (Suc k) n s')"

text \<open>
  \<^verbatim>\<open>time.Since\<close>: the difference of two clock readings (nanoseconds), kept within a
  \<^verbatim>\<open>Duration\<close>.
\<close>

definition Since :: "int \<Rightarrow> int \<Rightarrow> int" where
  "Since t now =
     (let d = now - t
      in if d > 2 ^ 63 - 1 then 2 ^ 63 - 1 else if d < - (2 ^ 63) then - (2 ^ 63) else d)"

text \<open>
  What \<^verbatim>\<open>Run\<close> leaves behind when it returns: the rounds it ran, the elapsed time and the
  table it printed, and the service instance.
\<close>

record Report =
  roundsRun :: nat
  elapsed :: int
  table :: "string list list"
  final :: ServiceInstance

text \<open>Lines 147 to 153: one row for each operation, its name and its two counts.\<close>

definition reportRows :: "ServiceInstance \<Rightarrow> string list list" where
  "reportRows s =
     map (\<lambda>o'. [OpName o', FormatUint (A o'), FormatUint (B o')]) (Operation (statistics s))"

text \<open>
  \<^verbatim>\<open>Run\<close>, without the signal handler. \<open>now\<close> is the clock when the loop has exited.
  Modelled from the spec: package \<^verbatim>\<open>printer\<close> is not among the sources; \<^verbatim>\<open>AddRow\<close>
  appends a row to the table (spec 6, Reporter).
\<close>

definition Run :: "route \<Rightarrow> (nat \<Rightarrow> nat \<Rightarrow> Outcome) \<Rightarrow> int \<Rightarrow> ServiceInstance \<Rightarrow> (error + Report) option" where
  "Run r env now s =
     (let us = GetDeliveryUnit (worldOperator s)
      in case roundLoop r env us 0 s of
           None \<Rightarrow> None
         | Some (Inl e) \<Rightarrow> Some (Inl e)
         | Some (Inr (k, s1)) \<Rightarrow>
             (let s2 = s1\<lparr>reportTable := reportTable s1 @ reportRows s1\<rparr>
              in Some (Inr \<lparr>roundsRun = k, elapsed = Since (ExecTime (statistics s2)) now,
                            table = reportTable s2, final = s2\<rparr>)))"

subsection \<open>Construction\<close>

text \<open>\<^verbatim>\<open>1<<8-1\<close> is \<^verbatim>\<open>(1<<8)-1\<close> in Go.\<close>

definition maxWarehouses :: int where
  "maxWarehouses = 2 ^ 8 - 1"

definition maxCargoUnits :: int where
  "maxCargoUnits = 2 ^ 10"

text \<open>\<^verbatim>\<open>APILogisticsClient.Connect\<close> returns the error of the dial, or nil.\<close>

definition Connect :: "error option \<Rightarrow> error option" where
  "Connect dialErr = (case dialErr of Some e \<Rightarrow> Some e | None \<Rightarrow> None)"

text \<open>
  \<^verbatim>\<open>NewServiceInstance\<close>. The operator's \<^verbatim>\<open>Populate\<close> is an argument (package \<^verbatim>\<open>operator\<close>
  is not among the sources): from the two counts to an error or the populated world.
  The result is the list of the calls made to \<^verbatim>\<open>Populate\<close>, with their arguments, and the
  error or the instance. \<open>g1\<close> and \<open>g2\<close> are the generator's outputs, \<open>now\<close> the clock.
\<close>

definition NewServiceInstance ::
    "error option \<Rightarrow> nat \<Rightarrow> nat \<Rightarrow> (32 word \<Rightarrow> 32 word \<Rightarrow> error + WorldOperator) \<Rightarrow> int
       \<Rightarrow> (32 word \<times> 32 word) list \<times> (error + ServiceInstance)" where
  "NewServiceInstance dialErr g1 g2 Populate now =
     (case Connect dialErr of
        Some connErr \<Rightarrow> ([], Inl (ConnectFailed connErr))
      | None \<Rightarrow>
          (case Intn (int64 (int64 (maxWarehouses - 10) + 1)) g1 of
             Inl e \<Rightarrow> ([], Inl e)
           | Inr w \<Rightarrow>
               (case Intn (int64 (int64 (maxCargoUnits - 10) + 1)) g2 of
                  Inl e \<Rightarrow> ([], Inl e)
                | Inr c \<Rightarrow>
                    (let warehouseCount = word_of_int (int64 (w + 10));
                         unitCount = word_of_int (int64 (c + 10));
                         service = \<lparr>worldOperator = \<lparr>warehouses = [], deliveryUnits = []\<rparr>,
                                    maxMoveWaitNumber = 100,
                                    reportTable = [[''Operation'', ''Count'', ''Errors'']],
                                    statistics = \<lparr>ExecTime = now,
                                      Operation = [\<lparr>OpName = ''MoveUnit'', A = 0, B = 0\<rparr>,
                                                   \<lparr>OpName = ''UnitReachedWarehouse'', A = 0, B = 0\<rparr>]\<rparr>,
                                    sent = [], slept = []\<rparr>
                     in case Populate warehouseCount unitCount of
                          Inl worldPopulationErr \<Rightarrow> ([(warehouseCount, unitCount)], Inl worldPopulationErr)
                        | Inr wo \<Rightarrow>
                            ([(warehouseCount, unitCount)], Inr (service\<lparr>worldOperator := wo\<rparr>))))))"


subsection \<open>Well-formed instances\<close>

text \<open>
  What the constructor establishes and the tasks keep: a pacing ceiling from which
  \<^verbatim>\<open>rand.Intn\<close> does not panic, and the two operations of the statistics.
\<close>

definition paced :: "ServiceInstance \<Rightarrow> bool" where
  "paced s = (0 \<le> maxMoveWaitNumber s \<and> maxMoveWaitNumber s < 2 ^ 63 - 1)"

definition ready :: "ServiceInstance \<Rightarrow> bool" where
  "ready s =
     (0 \<le> maxMoveWaitNumber s \<and> maxMoveWaitNumber s < 2 ^ 63 - 1 \<and>
      length (Operation (statistics s)) = 2)"

text \<open>
  The state of a task of a well-formed instance when its movement report has been sent
  (line 186): paced, the unit moved, the attempt counted, the request handed over.
\<close>

definition afterMove :: "route \<Rightarrow> Outcome \<Rightarrow> nat \<Rightarrow> ServiceInstance \<Rightarrow> ServiceInstance" where
  "afterMove r out u s =
     (let unit = deliveryUnits (worldOperator s) ! u;
          new = r (map Coordinate (warehouses (worldOperator s))) (Coordinate unit);
          ops = Operation (statistics s)
      in s\<lparr>slept := slept s @ [waitDuration (maxMoveWaitNumber s)],
           maxMoveWaitNumber := (int (draw out) mod (maxMoveWaitNumber s + 1) + 1) div 2,
           worldOperator := (worldOperator s)\<lparr>deliveryUnits :=
              (deliveryUnits (worldOperator s))[u := unit\<lparr>Coordinate := new\<rparr>]\<rparr>,
           statistics := (statistics s)\<lparr>Operation := ops[0 := AddA (ops ! 0)]\<rparr>,
           sent := sent s @ [MoveUnitRequest (word_of_int (ID unit))
                               (word_of_int (X new)) (word_of_int (Y new))]\<rparr>)"

text \<open>The requests handed to the client since the state \<open>s\<close>.\<close>

definition sentSince :: "ServiceInstance \<Rightarrow> ServiceInstance \<Rightarrow> Request list" where
  "sentSince s s' = drop (length (sent s)) (sent s')"

text \<open>The numeric id of a unit, as the requests carry it.\<close>

definition cargoId :: "GraphNode \<Rightarrow> 64 word" where
  "cargoId unit = word_of_int (ID unit)"

subsection \<open>The spec's pacing rule\<close>

text \<open>
  The spec's words (4.3): the new ceiling is a value of \<open>[1, c]\<close>, halved. The set of
  the ceilings it allows after a ceiling \<open>c\<close>.
\<close>

definition spec_ceilings :: "int \<Rightarrow> int set" where
  "spec_ceilings c = (\<lambda>d. d div 2) ` {1 .. c}"

subsection \<open>A world with two warehouses and three units\<close>

text \<open>
  Modelled from the spec: one step closer to the nearest warehouse, and no move for a
  unit that is at it (spec 6, AdvanceTowardNearestWarehouse). The spec fixes neither the
  metric nor the shape of a step; here the distance is the sum of the two coordinate
  differences, the nearest warehouse is the first of the least distance, and a step is
  one cell, along x first.
\<close>

definition distance :: "Coordinate \<Rightarrow> Coordinate \<Rightarrow> int" where
  "distance a b = \<bar>X a - X b\<bar> + \<bar>Y a - Y b\<bar>"

fun nearest :: "Coordinate list \<Rightarrow> Coordinate \<Rightarrow> Coordinate" where
  "nearest [] c = c"
| "nearest [w] c = w"
| "nearest (w # ws) c =
     (let n = nearest ws c in if distance w c \<le> distance n c then w else n)"

definition stepToward :: "Coordinate \<Rightarrow> Coordinate \<Rightarrow> Coordinate" where
  "stepToward t c =
     (if X c < X t then c\<lparr>X := X c + 1\<rparr>
      else if X t < X c then c\<lparr>X := X c - 1\<rparr>
      else if Y c < Y t then c\<lparr>Y := Y c + 1\<rparr>
      else if Y t < Y c then c\<lparr>Y := Y c - 1\<rparr>
      else c)"

definition gridRoute :: route where
  "gridRoute ws c = stepToward (nearest ws c) c"

text \<open>
  The scenario of the spec (section 8): warehouses at (0, 0) and (10, 0); U1 one step,
  U2 two steps and U3 three steps from the nearest of them.
\<close>

definition scenarioWorld :: WorldOperator where
  "scenarioWorld =
     \<lparr>warehouses =
        [\<lparr>ID = 1, Name = ''W1'', Coordinate = \<lparr>X = 0, Y = 0\<rparr>, Metadata = False\<rparr>,
         \<lparr>ID = 2, Name = ''W2'', Coordinate = \<lparr>X = 10, Y = 0\<rparr>, Metadata = False\<rparr>],
      deliveryUnits =
        [\<lparr>ID = 11, Name = ''U1'', Coordinate = \<lparr>X = 1, Y = 0\<rparr>, Metadata = False\<rparr>,
         \<lparr>ID = 12, Name = ''U2'', Coordinate = \<lparr>X = 9, Y = 1\<rparr>, Metadata = False\<rparr>,
         \<lparr>ID = 13, Name = ''U3'', Coordinate = \<lparr>X = 1, Y = 2\<rparr>, Metadata = False\<rparr>]\<rparr>"

text \<open>The instance that \<^verbatim>\<open>NewServiceInstance\<close> builds around this world at time 0.\<close>

definition scenario :: ServiceInstance where
  "scenario =
     \<lparr>worldOperator = scenarioWorld,
      maxMoveWaitNumber = 100,
      reportTable = [[''Operation'', ''Count'', ''Errors'']],
      statistics = \<lparr>ExecTime = 0,
        Operation = [\<lparr>OpName = ''MoveUnit'', A = 0, B = 0\<rparr>,
                     \<lparr>OpName = ''UnitReachedWarehouse'', A = 0, B = 0\<rparr>]\<rparr>,
      sent = [], slept = []\<rparr>"

text \<open>A world without a warehouse: its unit has nowhere to go and stays.\<close>

definition strandedWorld :: WorldOperator where
  "strandedWorld =
     \<lparr>warehouses = [],
      deliveryUnits = [\<lparr>ID = 11, Name = ''U1'', Coordinate = \<lparr>X = 4, Y = 5\<rparr>, Metadata = False\<rparr>]\<rparr>"

text \<open>
  The warehouses of the scenario with two units at them: U1 has reported its arrival,
  U2 has not.
\<close>

definition dockedWorld :: WorldOperator where
  "dockedWorld =
     scenarioWorld\<lparr>deliveryUnits :=
        [\<lparr>ID = 11, Name = ''U1'', Coordinate = \<lparr>X = 0, Y = 0\<rparr>, Metadata = True\<rparr>,
         \<lparr>ID = 12, Name = ''U2'', Coordinate = \<lparr>X = 10, Y = 0\<rparr>, Metadata = False\<rparr>]\<rparr>"

definition docked :: ServiceInstance where
  "docked = scenario\<lparr>worldOperator := dockedWorld\<rparr>"

text \<open>A transport whose calls always succeed; \<open>g k u\<close> is the generator's output.\<close>

definition reliable :: "(nat \<Rightarrow> nat \<Rightarrow> nat) \<Rightarrow> nat \<Rightarrow> nat \<Rightarrow> Outcome" where
  "reliable g k u = \<lparr>draw = g k u, moveResp = None, reachResp = None\<rparr>"

text \<open>
  A transport whose movement reports succeed and whose arrival reports fail in the
  rounds before round \<open>m\<close>.
\<close>

definition failing :: "nat \<Rightarrow> nat \<Rightarrow> nat \<Rightarrow> Outcome" where
  "failing m k u = \<lparr>draw = 0, moveResp = None,
      reachResp = (if k < m then Some (ApiError ''unavailable'') else None)\<rparr>"

section \<open>Properties\<close>

subsection \<open>Pacing\<close>

lemma int64_id: "- (2 ^ 63) \<le> x \<Longrightarrow> x < 2 ^ 63 \<Longrightarrow> int64 x = x"
  by (simp add: int64_def)

lemma int64_range: "- (2 ^ 63) \<le> int64 x \<and> int64 x < 2 ^ 63"
proof -
  have "0 \<le> (x + 2 ^ 63) mod (2 ^ 64 :: int)" by simp
  moreover have "(x + 2 ^ 63) mod (2 ^ 64 :: int) < 2 ^ 64" by simp
  ultimately show ?thesis by (simp add: int64_def)
qed

lemma Intn_Inr: "Intn n g = Inr r \<Longrightarrow> 0 < n \<and> 0 \<le> r \<and> r < n \<and> r = int g mod n"
  by (auto simp: Intn_def split: if_splits)

lemma drawCeiling_Inr:
  assumes "drawCeiling c g = Inr d"
  shows "0 < int64 (c + 1) \<and> d = int g mod int64 (c + 1) + 1 \<and> 1 \<le> d \<and> d \<le> int64 (c + 1)"
proof -
  obtain r where r: "Intn (int64 (c + 1)) g = Inr r" and d: "d = int64 (r + 1)"
    using assms by (auto simp: drawCeiling_def split: sum.splits)
  from Intn_Inr [OF r] have n: "0 < int64 (c + 1)" and r0: "0 \<le> r" and r1: "r < int64 (c + 1)"
    and rm: "r = int g mod int64 (c + 1)" by simp_all
  have "int64 (c + 1) < 2 ^ 63" using int64_range by blast
  then have e: "int64 (r + 1) = r + 1" using r0 r1 by (intro int64_id) linarith+
  show ?thesis unfolding d e using r0 r1 n rm by linarith
qed

lemma drawCeiling_eq:
  assumes "0 \<le> c" "c < 2 ^ 63 - 1"
  shows "drawCeiling c g = Inr (int g mod (c + 1) + 1)"
proof -
  have n: "int64 (c + 1) = c + 1" using assms by (intro int64_id) linarith+
  have r0: "0 \<le> int g mod (c + 1)" by (rule pos_mod_sign) (use assms in linarith)
  have r1: "int g mod (c + 1) < c + 1" by (rule pos_mod_bound) (use assms in linarith)
  have m: "int64 (int g mod (c + 1) + 1) = int g mod (c + 1) + 1"
    using assms r0 r1 by (intro int64_id) linarith+
  show ?thesis using assms by (simp add: drawCeiling_def Intn_def n m)
qed

lemma draw_bounds:
  assumes "0 \<le> c"
  shows "1 \<le> int g mod (c + 1) + 1 \<and> int g mod (c + 1) + 1 \<le> c + 1"
proof -
  have "0 \<le> int g mod (c + 1)" by (rule pos_mod_sign) (use assms in linarith)
  moreover have "int g mod (c + 1) < c + 1" by (rule pos_mod_bound) (use assms in linarith)
  ultimately show ?thesis by linarith
qed

lemma nextCeiling_eq:
  assumes "0 \<le> c" "c < 2 ^ 63 - 1"
  shows "nextCeiling c g = Inr ((int g mod (c + 1) + 1) div 2)"
  using draw_bounds [OF assms(1), of g]
  by (simp add: nextCeiling_def drawCeiling_eq [OF assms] halve_def)

lemma nextCeiling_le:
  assumes "1 \<le> c" "nextCeiling c g = Inr c'"
  shows "0 \<le> c' \<and> c' \<le> c"
proof -
  obtain d where d: "drawCeiling c g = Inr d" and c': "c' = halve d"
    using assms(2) by (auto simp: nextCeiling_def split: sum.splits)
  from drawCeiling_Inr [OF d] have d1: "1 \<le> d" and dn: "d \<le> int64 (c + 1)" by simp_all
  have nc: "int64 (c + 1) \<le> c + 1"
  proof (cases "c + 1 < 2 ^ 63")
    case True
    then have "int64 (c + 1) = c + 1" using assms(1) by (intro int64_id) linarith+
    then show ?thesis by simp
  next
    case False
    then show ?thesis using int64_range [of "c + 1"] by linarith
  qed
  have "c' = d div 2" using c' d1 by (simp add: halve_def)
  then show ?thesis using d1 dn nc assms(1) by linarith
qed

lemma nextCeiling_zero: "nextCeiling 0 g = Inr 0"
  by (simp add: nextCeiling_eq)

lemma waitDuration_zero: "waitDuration 0 = 0"
  by (simp add: waitDuration_def int64_def)

lemma next_bounds:
  assumes "0 \<le> c"
  shows "0 \<le> (int g mod (c + 1) + 1) div 2 \<and> (int g mod (c + 1) + 1) div 2 \<le> c"
  using draw_bounds [OF assms, of g] by linarith

lemma pace_ready:
  assumes "ready s"
  shows "pace g s =
    Inr (s\<lparr>slept := slept s @ [waitDuration (maxMoveWaitNumber s)],
           maxMoveWaitNumber := (int g mod (maxMoveWaitNumber s + 1) + 1) div 2\<rparr>)"
proof -
  have "nextCeiling (maxMoveWaitNumber s) g = Inr ((int g mod (maxMoveWaitNumber s + 1) + 1) div 2)"
    using assms by (intro nextCeiling_eq) (simp_all add: ready_def)
  then show ?thesis by (simp add: pace_def)
qed

lemma possible_draws:
  assumes "0 \<le> c" "c < 2 ^ 63 - 1"
  shows "{d. \<exists>g. drawCeiling c g = Inr d} = {1 .. c + 1}"
proof (intro set_eqI iffI)
  fix x assume "x \<in> {d. \<exists>g. drawCeiling c g = Inr d}"
  then obtain g where "x = int g mod (c + 1) + 1"
    using drawCeiling_eq [OF assms] by auto
  then show "x \<in> {1 .. c + 1}" using draw_bounds [OF assms(1), of g] by simp
next
  fix x assume "x \<in> {1 .. c + 1}"
  then have d: "1 \<le> x" "x \<le> c + 1" by auto
  have "int (nat (x - 1)) mod (c + 1) = x - 1" using d by simp
  then have "drawCeiling c (nat (x - 1)) = Inr x"
    using drawCeiling_eq [OF assms, of "nat (x - 1)"] d by simp
  then show "x \<in> {d. \<exists>g. drawCeiling c g = Inr d}" by blast
qed

lemma possible_ceilings:
  assumes "0 \<le> c" "c < 2 ^ 63 - 1"
  shows "{c'. \<exists>g. nextCeiling c g = Inr c'} = (\<lambda>d. d div 2) ` {1 .. c + 1}"
proof -
  have n: "nextCeiling c g = Inr (halve (int g mod (c + 1) + 1))" for g
    by (simp add: nextCeiling_def drawCeiling_eq [OF assms])
  have "{c'. \<exists>g. nextCeiling c g = Inr c'} = halve ` {d. \<exists>g. drawCeiling c g = Inr d}"
    by (auto simp: n drawCeiling_eq [OF assms])
  also have "\<dots> = halve ` {1 .. c + 1}" by (simp add: possible_draws [OF assms])
  also have "\<dots> = (\<lambda>d. d div 2) ` {1 .. c + 1}" by (intro image_cong) (auto simp: halve_def)
  finally show ?thesis .
qed

subsection \<open>One task\<close>

lemma processDelivery_ready:
  assumes "ready s" "u < length (deliveryUnits (worldOperator s))"
  shows "processDelivery r out u s =
    (let unit = deliveryUnits (worldOperator s) ! u;
         new = r (map Coordinate (warehouses (worldOperator s))) (Coordinate unit);
         s4 = afterMove r out u s;
         ops = Operation (statistics s4)
     in case moveResp out of
          Some e \<Rightarrow> Inr (s4\<lparr>statistics := (statistics s4)\<lparr>Operation := ops[0 := AddB (ops ! 0)]\<rparr>\<rparr>)
        | None \<Rightarrow>
            if new \<noteq> Coordinate unit then Inr s4
            else
              (case find (\<lambda>w. Coordinate w = new) (warehouses (worldOperator s)) of
                 None \<Rightarrow> Inr s4
               | Some warehouse \<Rightarrow>
                   (let s6 = s4\<lparr>statistics := (statistics s4)\<lparr>Operation := ops[1 := AddA (ops ! 1)]\<rparr>,
                                sent := sent s4 @
                                  [UnitReachedWarehouseRequest (word_of_int (X new)) (word_of_int (Y new))
                                     (word_of_int (ID unit)) (word_of_int (ID warehouse))
                                     (unitMessage unit new @ '' - Reached Objective.'')]\<rparr>;
                        ops6 = Operation (statistics s6)
                    in case reachResp out of
                         Some e \<Rightarrow> Inr (s6\<lparr>statistics := (statistics s6)\<lparr>Operation := ops6[1 := AddB (ops6 ! 1)]\<rparr>\<rparr>)
                       | None \<Rightarrow> Inr (s6\<lparr>worldOperator := setReached u (worldOperator s6)\<rparr>))))"
proof -
  have ne: "Operation (statistics s) \<noteq> []" and l2: "length (Operation (statistics s)) = 2"
    using assms(1) by (auto simp: ready_def)
  show ?thesis
    using assms(2) ne l2
    by (simp add: processDelivery_def pace_ready [OF assms(1)] withOperation_def
        MoveDeliveryUnitToNearestWarehouse_def FindEntityByCoordinate_def MoveUnit_def
        UnitReachedWarehouse_def afterMove_def Let_def split: option.splits)
qed


lemma ready_afterMove:
  assumes "ready s"
  shows "ready (afterMove r out u s)"
  using assms next_bounds [of "maxMoveWaitNumber s" "draw out"]
  by (simp add: ready_def afterMove_def Let_def)

lemmas task_defs = processDelivery_def withOperation_def MoveDeliveryUnitToNearestWarehouse_def
  FindEntityByCoordinate_def MoveUnit_def UnitReachedWarehouse_def setReached_def Let_def

lemma pace_Inr:
  assumes "pace g s = Inr s1"
  shows "\<exists>c. nextCeiling (maxMoveWaitNumber s) g = Inr c \<and>
    s1 = s\<lparr>slept := slept s @ [waitDuration (maxMoveWaitNumber s)], maxMoveWaitNumber := c\<rparr>"
  using assms by (auto simp: pace_def Let_def split: sum.splits)

lemma task_pace:
  assumes "processDelivery r out u s = Inr s'"
  shows "nextCeiling (maxMoveWaitNumber s) (draw out) = Inr (maxMoveWaitNumber s') \<and>
    slept s' = slept s @ [waitDuration (maxMoveWaitNumber s)]"
proof -
  obtain s1 where p: "pace (draw out) s = Inr s1"
    and m: "maxMoveWaitNumber s' = maxMoveWaitNumber s1" and sl: "slept s' = slept s1"
    using assms
    by (auto simp: task_defs split: sum.splits if_splits option.splits)
  from pace_Inr [OF p] m sl show ?thesis by auto
qed

lemma task_world:
  assumes "processDelivery r out u s = Inr s'"
  shows "u < length (deliveryUnits (worldOperator s)) \<and>
    warehouses (worldOperator s') = warehouses (worldOperator s) \<and>
    length (deliveryUnits (worldOperator s')) = length (deliveryUnits (worldOperator s)) \<and>
    (\<forall>j. j \<noteq> u \<longrightarrow> deliveryUnits (worldOperator s') ! j = deliveryUnits (worldOperator s) ! j) \<and>
    ID (deliveryUnits (worldOperator s') ! u) = ID (deliveryUnits (worldOperator s) ! u) \<and>
    (Metadata (deliveryUnits (worldOperator s) ! u) \<longrightarrow> Metadata (deliveryUnits (worldOperator s') ! u))"
proof -
  obtain s1 where p: "pace (draw out) s = Inr s1"
    using assms by (auto simp: processDelivery_def split: sum.splits)
  from pace_Inr [OF p] have w: "worldOperator s1 = worldOperator s" by auto
  show ?thesis
    using assms
    by (auto simp: task_defs p w split: sum.splits if_splits option.splits)
qed

lemma task_sent:
  assumes "processDelivery r out u s = Inr s'"
  shows "\<exists>new. sent s' = sent s @ new \<and>
    (\<forall>q \<in> set new. CargoUnitId q = cargoId (deliveryUnits (worldOperator s) ! u))"
proof -
  obtain s1 where p: "pace (draw out) s = Inr s1"
    using assms by (auto simp: processDelivery_def split: sum.splits)
  from pace_Inr [OF p] have w: "worldOperator s1 = worldOperator s" "sent s1 = sent s" by auto
  show ?thesis
    using assms
    by (auto simp: task_defs cargoId_def p w split: sum.splits if_splits option.splits)
qed

lemma task_counts:
  assumes "processDelivery r out u s = Inr s'"
  shows "length (Operation (statistics s')) = length (Operation (statistics s)) \<and>
    (\<forall>k. (A (Operation (statistics s') ! k) = A (Operation (statistics s) ! k) \<and>
          B (Operation (statistics s') ! k) = B (Operation (statistics s) ! k)) \<or>
         (A (Operation (statistics s') ! k) = A (Operation (statistics s) ! k) + 1 \<and>
          (B (Operation (statistics s') ! k) = B (Operation (statistics s) ! k) \<or>
           B (Operation (statistics s') ! k) = B (Operation (statistics s) ! k) + 1)))"
proof -
  obtain s1 where p: "pace (draw out) s = Inr s1"
    using assms by (auto simp: processDelivery_def split: sum.splits)
  from pace_Inr [OF p] have w: "statistics s1 = statistics s" by auto
  show ?thesis
    using assms
    by (auto simp: task_defs AddA_def AddB_def nth_list_update p w
        split: sum.splits if_splits option.splits)
qed

lemma pace_eq:
  assumes "0 \<le> maxMoveWaitNumber s" "maxMoveWaitNumber s < 2 ^ 63 - 1"
  shows "pace g s =
    Inr (s\<lparr>slept := slept s @ [waitDuration (maxMoveWaitNumber s)],
           maxMoveWaitNumber := (int g mod (maxMoveWaitNumber s + 1) + 1) div 2\<rparr>)"
  by (simp add: pace_def nextCeiling_eq [OF assms])

lemma tasks_zero_ceiling:
  assumes "maxMoveWaitNumber s = 0" "tasks r xs s = Inr s'"
  shows "maxMoveWaitNumber s' = 0 \<and> slept s' = slept s @ replicate (length xs) 0"
  using assms
proof (induction xs arbitrary: s)
  case Nil
  then show ?case by simp
next
  case (Cons x xs)
  from Cons.prems(2) obtain s1 where s1: "processDelivery r (fst x) (snd x) s = Inr s1"
    and rest: "tasks r xs s1 = Inr s'"
    by (auto split: sum.splits)
  from task_pace [OF s1] Cons.prems(1)
  have m: "maxMoveWaitNumber s1 = 0" and sl: "slept s1 = slept s @ [0]"
    by (simp_all add: nextCeiling_zero waitDuration_zero)
  from Cons.IH [OF m rest] sl show ?case by (simp add: replicate_append_same)
qed

lemmas scenario_defs = scenario_def scenarioWorld_def gridRoute_def stepToward_def distance_def

lemmas docked_defs = docked_def dockedWorld_def scenario_defs

subsection \<open>Construction\<close>

lemma unat_uint32: "0 \<le> y \<Longrightarrow> y < 2 ^ 32 \<Longrightarrow> unat (word_of_int y :: 32 word) = nat y"
  by (simp add: unat_eq_nat_uint uint_word_of_int take_bit_eq_mod)

lemma count_bounds:
  assumes "0 < n" "n + 10 < 2 ^ 32"
  shows "10 \<le> unat (word_of_int (int64 (int g mod n + 10)) :: 32 word) \<and>
    unat (word_of_int (int64 (int g mod n + 10)) :: 32 word) \<le> nat (n + 9)"
proof -
  have r0: "0 \<le> int g mod n" by (rule pos_mod_sign) (rule assms(1))
  have r1: "int g mod n < n" by (rule pos_mod_bound) (rule assms(1))
  have e1: "int64 (int g mod n + 10) = int g mod n + 10"
    using r0 r1 assms(2) by (intro int64_id) simp_all
  have e2: "unat (word_of_int (int g mod n + 10) :: 32 word) = nat (int g mod n + 10)"
    using r0 r1 assms(2) by (intro unat_uint32) simp_all
  show ?thesis unfolding e1 e2 using r0 r1 by arith
qed

lemma populate_calls:
  "fst (NewServiceInstance dialErr g1 g2 Populate now) =
     (case dialErr of
        Some e \<Rightarrow> []
      | None \<Rightarrow> [(word_of_int (int64 (int g1 mod 246 + 10)), word_of_int (int64 (int g2 mod 1015 + 10)))])"
  by (simp add: NewServiceInstance_def Connect_def Intn_def maxWarehouses_def maxCargoUnits_def
      int64_def Let_def split: option.splits sum.splits)

subsection \<open>Arrival\<close>

lemma arrival_step:
  assumes "ready s" and "u < length (deliveryUnits (worldOperator s))"
    and "moveResp out = None"
    and "snd (MoveDeliveryUnitToNearestWarehouse r u (worldOperator s)) =
           Coordinate (deliveryUnits (worldOperator s) ! u)"
    and "FindEntityByCoordinate (Coordinate (deliveryUnits (worldOperator s) ! u)) (worldOperator s) =
           Some warehouse"
  shows "\<exists>s'. processDelivery r out u s = Inr s' \<and>
      A (Operation (statistics s') ! 1) = A (Operation (statistics s) ! 1) + 1 \<and>
      sentSince s s' =
        [MoveUnitRequest (cargoId (deliveryUnits (worldOperator s) ! u))
           (word_of_int (X (Coordinate (deliveryUnits (worldOperator s) ! u))))
           (word_of_int (Y (Coordinate (deliveryUnits (worldOperator s) ! u)))),
         UnitReachedWarehouseRequest
           (word_of_int (X (Coordinate (deliveryUnits (worldOperator s) ! u))))
           (word_of_int (Y (Coordinate (deliveryUnits (worldOperator s) ! u))))
           (cargoId (deliveryUnits (worldOperator s) ! u)) (cargoId warehouse)
           (unitMessage (deliveryUnits (worldOperator s) ! u)
              (Coordinate (deliveryUnits (worldOperator s) ! u)) @ '' - Reached Objective.'')] \<and>
      (case reachResp out of
         Some e \<Rightarrow>
           B (Operation (statistics s') ! 1) = B (Operation (statistics s) ! 1) + 1 \<and>
           worldOperator s' = worldOperator s \<and> ready s'
       | None \<Rightarrow>
           B (Operation (statistics s') ! 1) = B (Operation (statistics s) ! 1) \<and>
           Metadata (deliveryUnits (worldOperator s') ! u))"
proof -
  have l2: "length (Operation (statistics s)) = 2" using assms(1) by (simp add: ready_def)
  have rd: "ready (afterMove r out u s)" by (rule ready_afterMove) (rule assms(1))
  have rd': "0 \<le> (int (draw out) mod (maxMoveWaitNumber s + 1) + 1) div 2 \<and>
     (int (draw out) mod (maxMoveWaitNumber s + 1) + 1) div 2 < 2 ^ 63 - 1"
    using assms(1) next_bounds [of "maxMoveWaitNumber s" "draw out"] by (simp add: ready_def)
  show ?thesis
    using assms(2-5) l2 rd'
    by (simp add: processDelivery_ready [OF assms(1,2)] afterMove_def Let_def AddA_def AddB_def
        MoveDeliveryUnitToNearestWarehouse_def FindEntityByCoordinate_def sentSince_def cargoId_def
        setReached_def ready_def split: option.splits)
qed

subsection \<open>Sequences of tasks and rounds\<close>

lemma task_ids:
  assumes "processDelivery r out u s = Inr s'"
  shows "map ID (deliveryUnits (worldOperator s')) = map ID (deliveryUnits (worldOperator s))"
proof (rule nth_equalityI)
  show "length (map ID (deliveryUnits (worldOperator s'))) =
        length (map ID (deliveryUnits (worldOperator s)))"
    using task_world [OF assms] by simp
next
  fix j assume "j < length (map ID (deliveryUnits (worldOperator s')))"
  then show "map ID (deliveryUnits (worldOperator s')) ! j =
             map ID (deliveryUnits (worldOperator s)) ! j"
    using task_world [OF assms] by (cases "j = u") simp_all
qed

lemma cargoId_ids:
  assumes "map ID xs = map ID ys" and "j < length xs"
  shows "cargoId (xs ! j) = cargoId (ys ! j)"
proof -
  have "length ys = length xs" using assms(1) by (metis length_map)
  then have "ID (xs ! j) = ID (ys ! j)" using assms by (metis nth_map)
  then show ?thesis by (simp add: cargoId_def)
qed

lemma tasks_arrived:
  assumes "Metadata (deliveryUnits (worldOperator s) ! i)" and "tasks r xs s = Inr s'"
  shows "Metadata (deliveryUnits (worldOperator s') ! i)"
  using assms
proof (induction xs arbitrary: s)
  case Nil
  then show ?case by simp
next
  case (Cons x xs)
  from Cons.prems(2) obtain s1 where s1: "processDelivery r (fst x) (snd x) s = Inr s1"
    and rest: "tasks r xs s1 = Inr s'"
    by (auto split: sum.splits)
  have "Metadata (deliveryUnits (worldOperator s1) ! i)"
    using task_world [OF s1] Cons.prems(1) by (cases "i = snd x") simp_all
  then show ?case using rest by (rule Cons.IH)
qed

lemma spawn_arrived:
  assumes "Metadata (deliveryUnits (worldOperator s) ! i)" and "spawn r env us s = Inr s'"
  shows "deliveryUnits (worldOperator s') ! i = deliveryUnits (worldOperator s) ! i \<and>
    map ID (deliveryUnits (worldOperator s')) = map ID (deliveryUnits (worldOperator s)) \<and>
    (\<exists>new. sent s' = sent s @ new \<and>
       (\<forall>q \<in> set new. \<exists>j < length (deliveryUnits (worldOperator s)).
          j \<noteq> i \<and> CargoUnitId q = cargoId (deliveryUnits (worldOperator s) ! j)))"
  using assms
proof (induction us arbitrary: s)
  case Nil
  then show ?case by simp
next
  case (Cons u us)
  show ?case
  proof (cases "Metadata (deliveryUnits (worldOperator s) ! u)")
    case True
    with Cons.prems(2) have "spawn r env us s = Inr s'" by simp
    with Cons.prems(1) show ?thesis by (rule Cons.IH)
  next
    case False
    with Cons.prems(2) obtain s1 where s1: "processDelivery r (env u) u s = Inr s1"
      and rest: "spawn r env us s1 = Inr s'"
      by (auto split: sum.splits)
    from False Cons.prems(1) have ui: "u \<noteq> i" by auto
    note w = task_world [OF s1]
    have same: "deliveryUnits (worldOperator s1) ! i = deliveryUnits (worldOperator s) ! i"
      using w ui by simp
    have ids: "map ID (deliveryUnits (worldOperator s1)) = map ID (deliveryUnits (worldOperator s))"
      by (rule task_ids) (rule s1)
    have len: "length (deliveryUnits (worldOperator s1)) = length (deliveryUnits (worldOperator s))"
      using w by simp
    from task_sent [OF s1] obtain new1 where n1: "sent s1 = sent s @ new1"
      and q1: "\<forall>q \<in> set new1. CargoUnitId q = cargoId (deliveryUnits (worldOperator s) ! u)"
      by blast
    from Cons.prems(1) same have "Metadata (deliveryUnits (worldOperator s1) ! i)" by simp
    from Cons.IH [OF this rest] obtain new2
      where i2: "deliveryUnits (worldOperator s') ! i = deliveryUnits (worldOperator s1) ! i"
        and ids2: "map ID (deliveryUnits (worldOperator s')) = map ID (deliveryUnits (worldOperator s1))"
        and n2: "sent s' = sent s1 @ new2"
        and q2: "\<forall>q \<in> set new2. \<exists>j < length (deliveryUnits (worldOperator s1)).
          j \<noteq> i \<and> CargoUnitId q = cargoId (deliveryUnits (worldOperator s1) ! j)"
      by blast
    have q2': "\<forall>q \<in> set new2. \<exists>j < length (deliveryUnits (worldOperator s)).
          j \<noteq> i \<and> CargoUnitId q = cargoId (deliveryUnits (worldOperator s) ! j)"
    proof
      fix q assume "q \<in> set new2"
      with q2 obtain j where j: "j < length (deliveryUnits (worldOperator s1))" "j \<noteq> i"
        "CargoUnitId q = cargoId (deliveryUnits (worldOperator s1) ! j)" by blast
      from cargoId_ids [OF ids j(1)] j len
      show "\<exists>j < length (deliveryUnits (worldOperator s)).
          j \<noteq> i \<and> CargoUnitId q = cargoId (deliveryUnits (worldOperator s) ! j)"
        by auto
    qed
    have q1': "\<forall>q \<in> set new1. \<exists>j < length (deliveryUnits (worldOperator s)).
          j \<noteq> i \<and> CargoUnitId q = cargoId (deliveryUnits (worldOperator s) ! j)"
      using q1 w ui by blast
    have "sent s' = sent s @ (new1 @ new2)" using n1 n2 by simp
    moreover have "\<forall>q \<in> set (new1 @ new2). \<exists>j < length (deliveryUnits (worldOperator s)).
          j \<noteq> i \<and> CargoUnitId q = cargoId (deliveryUnits (worldOperator s) ! j)"
      using q1' q2' by auto
    ultimately show ?thesis using i2 same ids ids2 by metis
  qed
qed

lemma rounds_arrived:
  assumes "Metadata (deliveryUnits (worldOperator s) ! i)" and "rounds r env us k n s = Inr s'"
  shows "deliveryUnits (worldOperator s') ! i = deliveryUnits (worldOperator s) ! i \<and>
    map ID (deliveryUnits (worldOperator s')) = map ID (deliveryUnits (worldOperator s)) \<and>
    (\<exists>new. sent s' = sent s @ new \<and>
       (\<forall>q \<in> set new. \<exists>j < length (deliveryUnits (worldOperator s)).
          j \<noteq> i \<and> CargoUnitId q = cargoId (deliveryUnits (worldOperator s) ! j)))"
  using assms
proof (induction n arbitrary: k s)
  case 0
  then show ?case by simp
next
  case (Suc n)
  from Suc.prems(2) obtain s1 where s1: "spawn r (env k) us s = Inr s1"
    and rest: "rounds r env us (Suc k) n s1 = Inr s'"
    by (auto split: sum.splits)
  from spawn_arrived [OF Suc.prems(1) s1] obtain new1
    where same: "deliveryUnits (worldOperator s1) ! i = deliveryUnits (worldOperator s) ! i"
      and ids: "map ID (deliveryUnits (worldOperator s1)) = map ID (deliveryUnits (worldOperator s))"
      and n1: "sent s1 = sent s @ new1"
      and q1: "\<forall>q \<in> set new1. \<exists>j < length (deliveryUnits (worldOperator s)).
          j \<noteq> i \<and> CargoUnitId q = cargoId (deliveryUnits (worldOperator s) ! j)"
    by blast
  have len: "length (deliveryUnits (worldOperator s1)) = length (deliveryUnits (worldOperator s))"
    using ids by (metis length_map)
  from Suc.prems(1) same have "Metadata (deliveryUnits (worldOperator s1) ! i)" by simp
  from Suc.IH [OF this rest] obtain new2
    where i2: "deliveryUnits (worldOperator s') ! i = deliveryUnits (worldOperator s1) ! i"
      and ids2: "map ID (deliveryUnits (worldOperator s')) = map ID (deliveryUnits (worldOperator s1))"
      and n2: "sent s' = sent s1 @ new2"
      and q2: "\<forall>q \<in> set new2. \<exists>j < length (deliveryUnits (worldOperator s1)).
          j \<noteq> i \<and> CargoUnitId q = cargoId (deliveryUnits (worldOperator s1) ! j)"
    by blast
  have q2': "\<forall>q \<in> set new2. \<exists>j < length (deliveryUnits (worldOperator s)).
          j \<noteq> i \<and> CargoUnitId q = cargoId (deliveryUnits (worldOperator s) ! j)"
  proof
    fix q assume "q \<in> set new2"
    with q2 obtain j where j: "j < length (deliveryUnits (worldOperator s1))" "j \<noteq> i"
      "CargoUnitId q = cargoId (deliveryUnits (worldOperator s1) ! j)" by blast
    from cargoId_ids [OF ids j(1)] j len
    show "\<exists>j < length (deliveryUnits (worldOperator s)).
          j \<noteq> i \<and> CargoUnitId q = cargoId (deliveryUnits (worldOperator s) ! j)"
      by auto
  qed
  have "sent s' = sent s @ (new1 @ new2)" using n1 n2 by simp
  moreover have "\<forall>q \<in> set (new1 @ new2). \<exists>j < length (deliveryUnits (worldOperator s)).
          j \<noteq> i \<and> CargoUnitId q = cargoId (deliveryUnits (worldOperator s) ! j)"
    using q1 q2' by auto
  ultimately show ?case using i2 same ids ids2 by metis
qed

lemma spawn_tasks:
  assumes "spawn r env us s = Inr s'"
  shows "\<exists>xs. tasks r xs s = Inr s'"
  using assms
proof (induction us arbitrary: s)
  case Nil
  then have "tasks r [] s = Inr s'" by simp
  then show ?case by blast
next
  case (Cons u us)
  show ?case
  proof (cases "Metadata (deliveryUnits (worldOperator s) ! u)")
    case True
    with Cons.prems have "spawn r env us s = Inr s'" by simp
    then show ?thesis by (rule Cons.IH)
  next
    case False
    with Cons.prems obtain s1 where s1: "processDelivery r (env u) u s = Inr s1"
      and rest: "spawn r env us s1 = Inr s'"
      by (auto split: sum.splits)
    from Cons.IH [OF rest] obtain xs where "tasks r xs s1 = Inr s'" by blast
    with s1 have "tasks r ((env u, u) # xs) s = Inr s'" by simp
    then show ?thesis by blast
  qed
qed

lemma tasks_append:
  assumes "tasks r xs s = Inr s1" and "tasks r ys s1 = Inr s'"
  shows "tasks r (xs @ ys) s = Inr s'"
  using assms by (induction xs arbitrary: s) (auto split: sum.splits)

lemma rounds_tasks:
  assumes "rounds r env us k n s = Inr s'"
  shows "\<exists>xs. tasks r xs s = Inr s'"
  using assms
proof (induction n arbitrary: k s)
  case 0
  then have "tasks r [] s = Inr s'" by simp
  then show ?case by blast
next
  case (Suc n)
  from Suc.prems obtain s1 where s1: "spawn r (env k) us s = Inr s1"
    and rest: "rounds r env us (Suc k) n s1 = Inr s'"
    by (auto split: sum.splits)
  from spawn_tasks [OF s1] obtain xs where xs: "tasks r xs s = Inr s1" by blast
  from Suc.IH [OF rest] obtain ys where "tasks r ys s1 = Inr s'" by blast
  with xs have "tasks r (xs @ ys) s = Inr s'" by (rule tasks_append)
  then show ?case by blast
qed

lemma map_update_same:
  assumes "f v = f (xs ! k)"
  shows "map f (xs[k := v]) = map f xs"
proof (cases "k < length xs")
  case True
  have "map f (xs[k := v]) = (map f xs)[k := f v]" by (rule map_update)
  also have "\<dots> = (map f xs)[k := map f xs ! k]" using assms True by simp
  also have "\<dots> = map f xs" by (rule list_update_id)
  finally show ?thesis .
next
  case False
  then have "xs[k := v] = xs" by (intro list_update_beyond) simp
  then show ?thesis by simp
qed

lemma OpName_Add: "OpName (AddA p) = OpName p \<and> OpName (AddB p) = OpName p"
  by (simp add: AddA_def AddB_def)

lemma task_names:
  assumes "processDelivery r out u s = Inr s'"
  shows "map OpName (Operation (statistics s')) = map OpName (Operation (statistics s)) \<and>
    reportTable s' = reportTable s \<and> ExecTime (statistics s') = ExecTime (statistics s)"
proof -
  obtain s1 where p: "pace (draw out) s = Inr s1"
    using assms by (auto simp: processDelivery_def split: sum.splits)
  from pace_Inr [OF p] have w: "statistics s1 = statistics s" "reportTable s1 = reportTable s" by auto
  show ?thesis
    using assms
    by (auto simp: task_defs map_update_same OpName_Add p w
        split: sum.splits if_splits option.splits)
qed

lemma tasks_statistics:
  assumes "tasks r xs s = Inr s'"
  shows "map OpName (Operation (statistics s')) = map OpName (Operation (statistics s)) \<and>
    reportTable s' = reportTable s \<and> ExecTime (statistics s') = ExecTime (statistics s) \<and>
    (\<forall>k. B (Operation (statistics s) ! k) \<le> A (Operation (statistics s) ! k) \<longrightarrow>
         B (Operation (statistics s') ! k) \<le> A (Operation (statistics s') ! k))"
  using assms
proof (induction xs arbitrary: s)
  case Nil
  then show ?case by simp
next
  case (Cons x xs)
  from Cons.prems obtain s1 where s1: "processDelivery r (fst x) (snd x) s = Inr s1"
    and rest: "tasks r xs s1 = Inr s'"
    by (auto split: sum.splits)
  have step: "\<forall>k. B (Operation (statistics s) ! k) \<le> A (Operation (statistics s) ! k) \<longrightarrow>
         B (Operation (statistics s1) ! k) \<le> A (Operation (statistics s1) ! k)"
  proof (intro allI impI)
    fix k assume le: "B (Operation (statistics s) ! k) \<le> A (Operation (statistics s) ! k)"
    from task_counts [OF s1]
    have "(A (Operation (statistics s1) ! k) = A (Operation (statistics s) ! k) \<and>
          B (Operation (statistics s1) ! k) = B (Operation (statistics s) ! k)) \<or>
         (A (Operation (statistics s1) ! k) = A (Operation (statistics s) ! k) + 1 \<and>
          (B (Operation (statistics s1) ! k) = B (Operation (statistics s) ! k) \<or>
           B (Operation (statistics s1) ! k) = B (Operation (statistics s) ! k) + 1))"
      by blast
    with le show "B (Operation (statistics s1) ! k) \<le> A (Operation (statistics s1) ! k)"
      by linarith
  qed
  from Cons.IH [OF rest] task_names [OF s1] step show ?case by simp
qed

lemma constructed:
  assumes "snd (NewServiceInstance dialErr g1 g2 Populate now) = Inr s0"
  shows "maxMoveWaitNumber s0 = 100 \<and> sent s0 = [] \<and> slept s0 = [] \<and>
    reportTable s0 = [[''Operation'', ''Count'', ''Errors'']] \<and>
    statistics s0 = \<lparr>ExecTime = now,
      Operation = [\<lparr>OpName = ''MoveUnit'', A = 0, B = 0\<rparr>,
                   \<lparr>OpName = ''UnitReachedWarehouse'', A = 0, B = 0\<rparr>]\<rparr>"
  using assms
  by (auto simp: NewServiceInstance_def Let_def split: option.splits sum.splits)

subsection \<open>The round loop\<close>

lemma rounds_Suc_first:
  "rounds r env us k (Suc m) s = (case spawn r (env k) us s of Inl e \<Rightarrow> Inl e | Inr s1 \<Rightarrow> rounds r env us (Suc k) m s1)"
  by simp

lemma roundLoop_exit:
  assumes "rounds r env us k n s = Inr s'"
    and "unitsReachedObjective us s' = length us"
    and "\<forall>m<n. \<forall>t. rounds r env us k m s = Inr t \<longrightarrow> unitsReachedObjective us t \<noteq> length us"
  shows "roundLoop r env us k s = Some (Inr (k + n, s'))"
  using assms
proof (induction n arbitrary: k s)
  case 0
  then show ?case by (simp add: roundLoop.simps)
next
  case (Suc n)
  from Suc.prems(1) obtain s1 where s1: "spawn r (env k) us s = Inr s1"
    and rest: "rounds r env us (Suc k) n s1 = Inr s'"
    by (auto split: sum.splits)
  have "rounds r env us k 0 s = Inr s" by simp
  with Suc.prems(3) have open0: "unitsReachedObjective us s \<noteq> length us" by blast
  have later: "\<forall>m<n. \<forall>t. rounds r env us (Suc k) m s1 = Inr t \<longrightarrow>
      unitsReachedObjective us t \<noteq> length us"
  proof (intro allI impI)
    fix m t assume m: "m < n" and t: "rounds r env us (Suc k) m s1 = Inr t"
    from t s1 have "rounds r env us k (Suc m) s = Inr t" by simp
    moreover from m have "Suc m < Suc n" by simp
    ultimately show "unitsReachedObjective us t \<noteq> length us" using Suc.prems(3) by blast
  qed
  from Suc.IH [OF rest Suc.prems(2) later]
  have "roundLoop r env us (Suc k) s1 = Some (Inr (Suc k + n, s'))" .
  then show ?case using open0 s1 by (subst roundLoop.simps) simp
qed

lemma roundLoop_Inr:
  assumes "roundLoop r env us k s = Some y"
  shows "\<forall>k' s'. y = Inr (k', s') \<longrightarrow>
    (\<exists>n. k' = k + n \<and> rounds r env us k n s = Inr s' \<and>
       unitsReachedObjective us s' = length us \<and>
       (\<forall>m<n. \<forall>t. rounds r env us k m s = Inr t \<longrightarrow> unitsReachedObjective us t \<noteq> length us))"
proof (rule roundLoop.raw_induct [where P = "\<lambda>r env us k s y. \<forall>k' s'. y = Inr (k', s') \<longrightarrow>
    (\<exists>n. k' = k + n \<and> rounds r env us k n s = Inr s' \<and>
       unitsReachedObjective us s' = length us \<and>
       (\<forall>m<n. \<forall>t. rounds r env us k m s = Inr t \<longrightarrow> unitsReachedObjective us t \<noteq> length us))",
    OF _ assms])
  fix loop :: "route \<Rightarrow> (nat \<Rightarrow> nat \<Rightarrow> Outcome) \<Rightarrow> nat list \<Rightarrow> nat \<Rightarrow> ServiceInstance
       \<Rightarrow> (error + nat \<times> ServiceInstance) option"
  fix r env us k s y
  assume IH: "\<And>r env us k s y. loop r env us k s = Some y \<Longrightarrow>
    \<forall>k' s'. y = Inr (k', s') \<longrightarrow>
    (\<exists>n. k' = k + n \<and> rounds r env us k n s = Inr s' \<and>
       unitsReachedObjective us s' = length us \<and>
       (\<forall>m<n. \<forall>t. rounds r env us k m s = Inr t \<longrightarrow> unitsReachedObjective us t \<noteq> length us))"
  assume body: "(if unitsReachedObjective us s = length us then Some (Inr (k, s))
      else case spawn r (env k) us s of Inl e \<Rightarrow> Some (Inl e)
           | Inr s' \<Rightarrow> loop r env us (Suc k) s') = Some y"
  show "\<forall>k' s'. y = Inr (k', s') \<longrightarrow>
    (\<exists>n. k' = k + n \<and> rounds r env us k n s = Inr s' \<and>
       unitsReachedObjective us s' = length us \<and>
       (\<forall>m<n. \<forall>t. rounds r env us k m s = Inr t \<longrightarrow> unitsReachedObjective us t \<noteq> length us))"
  proof (intro allI impI)
    fix k' s' assume y: "y = Inr (k', s')"
    show "\<exists>n. k' = k + n \<and> rounds r env us k n s = Inr s' \<and>
       unitsReachedObjective us s' = length us \<and>
       (\<forall>m<n. \<forall>t. rounds r env us k m s = Inr t \<longrightarrow> unitsReachedObjective us t \<noteq> length us)"
    proof (cases "unitsReachedObjective us s = length us")
      case True
      with body y have "k' = k" "s' = s" by simp_all
      with True have "k' = k + 0 \<and> rounds r env us k 0 s = Inr s' \<and>
         unitsReachedObjective us s' = length us \<and>
         (\<forall>m<0. \<forall>t. rounds r env us k m s = Inr t \<longrightarrow> unitsReachedObjective us t \<noteq> length us)"
        by simp
      then show ?thesis by blast
    next
      case False
      with body y obtain s1 where s1: "spawn r (env k) us s = Inr s1"
        and rest: "loop r env us (Suc k) s1 = Some (Inr (k', s'))"
        by (auto split: sum.splits)
      from IH [OF rest] obtain n where n: "k' = Suc k + n"
        and run: "rounds r env us (Suc k) n s1 = Inr s'"
        and conv: "unitsReachedObjective us s' = length us"
        and before: "\<forall>m<n. \<forall>t. rounds r env us (Suc k) m s1 = Inr t \<longrightarrow>
           unitsReachedObjective us t \<noteq> length us"
        by blast
      have b: "\<forall>m<Suc n. \<forall>t. rounds r env us k m s = Inr t \<longrightarrow>
           unitsReachedObjective us t \<noteq> length us"
      proof (intro allI impI)
        fix m t assume m: "m < Suc n" and t: "rounds r env us k m s = Inr t"
        show "unitsReachedObjective us t \<noteq> length us"
        proof (cases m)
          case 0
          with t False show ?thesis by simp
        next
          case (Suc j)
          with t s1 have "rounds r env us (Suc k) j s1 = Inr t" by simp
          moreover from Suc m have "j < n" by simp
          ultimately show ?thesis using before by blast
        qed
      qed
      have "k' = k + Suc n \<and> rounds r env us k (Suc n) s = Inr s' \<and>
         unitsReachedObjective us s' = length us"
        using n run conv s1 by simp
      with b show ?thesis by blast
    qed
  qed
qed

subsection \<open>Evaluating tasks whatever the draws are\<close>

lemma ready_paced: "ready s = (paced s \<and> length (Operation (statistics s)) = 2)"
  by (simp add: ready_def paced_def)

lemma paced_afterMove: "paced s \<Longrightarrow> paced (afterMove r out u s)"
  using next_bounds [of "maxMoveWaitNumber s" "draw out"]
  by (simp add: paced_def afterMove_def Let_def)

lemma paced_update:
  "paced (s\<lparr>worldOperator := w\<rparr>) = paced s"
  "paced (s\<lparr>statistics := st\<rparr>) = paced s"
  "paced (s\<lparr>sent := q\<rparr>) = paced s"
  "paced (s\<lparr>reportTable := t\<rparr>) = paced s"
  by (simp_all add: paced_def)

lemma afterMove_sel:
  "worldOperator (afterMove r out u s) =
     (worldOperator s)\<lparr>deliveryUnits := (deliveryUnits (worldOperator s))
        [u := (deliveryUnits (worldOperator s) ! u)
           \<lparr>Coordinate := r (map Coordinate (warehouses (worldOperator s)))
              (Coordinate (deliveryUnits (worldOperator s) ! u))\<rparr>]\<rparr>"
  "statistics (afterMove r out u s) =
     (statistics s)\<lparr>Operation := (Operation (statistics s))[0 := AddA (Operation (statistics s) ! 0)]\<rparr>"
  "reportTable (afterMove r out u s) = reportTable s"
  by (simp_all add: afterMove_def Let_def)

lemma paced_scenario: "paced scenario"
  by (simp add: paced_def scenario_def)

lemma scenario_sel:
  "worldOperator scenario = scenarioWorld"
  "statistics scenario = \<lparr>ExecTime = 0,
        Operation = [\<lparr>OpName = ''MoveUnit'', A = 0, B = 0\<rparr>,
                     \<lparr>OpName = ''UnitReachedWarehouse'', A = 0, B = 0\<rparr>]\<rparr>"
  "reportTable scenario = [[''Operation'', ''Count'', ''Errors'']]"
  by (simp_all add: scenario_def)

lemmas eval_simps = processDelivery_ready ready_paced paced_afterMove paced_update afterMove_sel
  paced_scenario scenario_sel scenarioWorld_def gridRoute_def stepToward_def distance_def
  reliable_def AddA_def AddB_def setReached_def Let_def

lemma scenario_units: "GetDeliveryUnit (worldOperator scenario) = [0, 1, 2]"
  by (simp add: GetDeliveryUnit_def scenario_defs upt_rec)

lemma scenario_round_0:
  "unitsReachedObjective [0, 1, 2] scenario = 0"
  by (simp add: unitsReachedObjective_def scenario_defs)

lemma scenario_round_1:
  "\<exists>s. rounds gridRoute (reliable g) [0, 1, 2] 0 1 scenario = Inr s \<and>
     map (\<lambda>n. (Coordinate n, Metadata n)) (deliveryUnits (worldOperator s)) =
       [(\<lparr>X = 0, Y = 0\<rparr>, False), (\<lparr>X = 10, Y = 1\<rparr>, False), (\<lparr>X = 0, Y = 2\<rparr>, False)] \<and>
     map (\<lambda>p. (OpName p, A p, B p)) (Operation (statistics s)) =
       [(''MoveUnit'', 3, 0), (''UnitReachedWarehouse'', 0, 0)] \<and>
     unitsReachedObjective [0, 1, 2] s = 0"
  by (simp add: eval_simps unitsReachedObjective_def)

lemma scenario_round_2:
  "\<exists>s. rounds gridRoute (reliable g) [0, 1, 2] 0 2 scenario = Inr s \<and>
     map (\<lambda>n. (Coordinate n, Metadata n)) (deliveryUnits (worldOperator s)) =
       [(\<lparr>X = 0, Y = 0\<rparr>, True), (\<lparr>X = 10, Y = 0\<rparr>, False), (\<lparr>X = 0, Y = 1\<rparr>, False)] \<and>
     map (\<lambda>p. (OpName p, A p, B p)) (Operation (statistics s)) =
       [(''MoveUnit'', 6, 0), (''UnitReachedWarehouse'', 1, 0)] \<and>
     unitsReachedObjective [0, 1, 2] s = 1"
  by (simp add: eval_simps unitsReachedObjective_def numeral_2_eq_2)

lemma scenario_round_3:
  "\<exists>s. rounds gridRoute (reliable g) [0, 1, 2] 0 3 scenario = Inr s \<and>
     map (\<lambda>n. (Coordinate n, Metadata n)) (deliveryUnits (worldOperator s)) =
       [(\<lparr>X = 0, Y = 0\<rparr>, True), (\<lparr>X = 10, Y = 0\<rparr>, True), (\<lparr>X = 0, Y = 0\<rparr>, False)] \<and>
     map (\<lambda>p. (OpName p, A p, B p)) (Operation (statistics s)) =
       [(''MoveUnit'', 8, 0), (''UnitReachedWarehouse'', 2, 0)] \<and>
     unitsReachedObjective [0, 1, 2] s = 2"
  by (simp add: eval_simps unitsReachedObjective_def numeral_3_eq_3 numeral_2_eq_2)

lemma scenario_round_4:
  "\<exists>s. rounds gridRoute (reliable g) [0, 1, 2] 0 4 scenario = Inr s \<and>
     map (\<lambda>n. (Coordinate n, Metadata n)) (deliveryUnits (worldOperator s)) =
       [(\<lparr>X = 0, Y = 0\<rparr>, True), (\<lparr>X = 10, Y = 0\<rparr>, True), (\<lparr>X = 0, Y = 0\<rparr>, True)] \<and>
     map (\<lambda>p. (OpName p, A p, B p)) (Operation (statistics s)) =
       [(''MoveUnit'', 9, 0), (''UnitReachedWarehouse'', 3, 0)] \<and>
     unitsReachedObjective [0, 1, 2] s = 3 \<and>
     reportTable s = [[''Operation'', ''Count'', ''Errors'']] \<and> ExecTime (statistics s) = 0"
  by (simp add: eval_simps unitsReachedObjective_def eval_nat_numeral)

subsection \<open>Run\<close>

lemma rounds_frame:
  assumes "rounds r env us k n s = Inr s'"
  shows "reportTable s' = reportTable s \<and> ExecTime (statistics s') = ExecTime (statistics s)"
proof -
  from rounds_tasks [OF assms] obtain xs where "tasks r xs s = Inr s'" by blast
  from tasks_statistics [OF this] show ?thesis by simp
qed

lemma Run_exit:
  assumes "rounds r env (GetDeliveryUnit (worldOperator s)) 0 n s = Inr s'"
    and "unitsReachedObjective (GetDeliveryUnit (worldOperator s)) s' =
           length (GetDeliveryUnit (worldOperator s))"
    and "\<forall>m<n. \<forall>t. rounds r env (GetDeliveryUnit (worldOperator s)) 0 m s = Inr t \<longrightarrow>
           unitsReachedObjective (GetDeliveryUnit (worldOperator s)) t \<noteq>
             length (GetDeliveryUnit (worldOperator s))"
  shows "Run r env now s =
    Some (Inr \<lparr>roundsRun = n, elapsed = Since (ExecTime (statistics s)) now,
                table = reportTable s @ reportRows s',
                final = s'\<lparr>reportTable := reportTable s @ reportRows s'\<rparr>\<rparr>)"
proof -
  from roundLoop_exit [OF assms]
  have "roundLoop r env (GetDeliveryUnit (worldOperator s)) 0 s = Some (Inr (n, s'))" by simp
  then show ?thesis using rounds_frame [OF assms(1)] by (simp add: Run_def Let_def)
qed

lemma Run_Inr:
  assumes "Run r env now s = Some (Inr rep)"
  shows "\<exists>n s'. rounds r env (GetDeliveryUnit (worldOperator s)) 0 n s = Inr s' \<and>
      unitsReachedObjective (GetDeliveryUnit (worldOperator s)) s' =
        length (GetDeliveryUnit (worldOperator s)) \<and>
      (\<forall>m<n. \<forall>t. rounds r env (GetDeliveryUnit (worldOperator s)) 0 m s = Inr t \<longrightarrow>
         unitsReachedObjective (GetDeliveryUnit (worldOperator s)) t \<noteq>
           length (GetDeliveryUnit (worldOperator s))) \<and>
      rep = \<lparr>roundsRun = n, elapsed = Since (ExecTime (statistics s)) now,
              table = reportTable s @ reportRows s',
              final = s'\<lparr>reportTable := reportTable s @ reportRows s'\<rparr>\<rparr>"
proof -
  let ?us = "GetDeliveryUnit (worldOperator s)"
  from assms obtain k s1 where l: "roundLoop r env ?us 0 s = Some (Inr (k, s1))"
    and rep: "rep = \<lparr>roundsRun = k, elapsed = Since (ExecTime (statistics s1)) now,
              table = reportTable s1 @ reportRows s1,
              final = s1\<lparr>reportTable := reportTable s1 @ reportRows s1\<rparr>\<rparr>"
    by (auto simp: Run_def Let_def split: option.splits sum.splits)
  from roundLoop_Inr [OF l] obtain n where n: "k = 0 + n"
    and run: "rounds r env ?us 0 n s = Inr s1"
    and conv: "unitsReachedObjective ?us s1 = length ?us"
    and before: "\<forall>m<n. \<forall>t. rounds r env ?us 0 m s = Inr t \<longrightarrow>
         unitsReachedObjective ?us t \<noteq> length ?us"
    by blast
  from rounds_frame [OF run] rep n
  have "rep = \<lparr>roundsRun = n, elapsed = Since (ExecTime (statistics s)) now,
              table = reportTable s @ reportRows s1,
              final = s1\<lparr>reportTable := reportTable s @ reportRows s1\<rparr>\<rparr>"
    by simp
  with run conv before show ?thesis by blast
qed

lemma scenario_before_4:
  "\<forall>m<4. \<forall>t. rounds gridRoute (reliable g) [0, 1, 2] 0 m scenario = Inr t \<longrightarrow>
     unitsReachedObjective [0, 1, 2] t \<noteq> length [0, 1, 2 :: nat]"
proof (intro allI impI)
  fix m :: nat and t
  assume m: "m < 4" and t: "rounds gridRoute (reliable g) [0, 1, 2] 0 m scenario = Inr t"
  from m consider "m = 0" | "m = 1" | "m = 2" | "m = 3" by linarith
  then show "unitsReachedObjective [0, 1, 2] t \<noteq> length [0, 1, 2 :: nat]"
  proof cases
    case 1
    with t scenario_round_0 show ?thesis by simp
  next
    case 2
    with t scenario_round_1 [of g] show ?thesis by auto
  next
    case 3
    with t scenario_round_2 [of g] show ?thesis by auto
  next
    case 4
    with t scenario_round_3 [of g] show ?thesis by auto
  qed
qed

subsection \<open>What \<^verbatim>\<open>rand.Intn\<close> gives\<close>

lemma Intn_eq: "0 < n \<Longrightarrow> Intn n g = Inr (int g mod n)"
  by (simp add: Intn_def)

lemma possible_Intn:
  assumes "0 \<le> c"
  shows "{r. \<exists>g. Intn (c + 1) g = Inr r} = {0 .. c}"
proof (intro set_eqI iffI)
  fix x assume "x \<in> {r. \<exists>g. Intn (c + 1) g = Inr r}"
  then obtain g where "Intn (c + 1) g = Inr x" by blast
  from Intn_Inr [OF this] show "x \<in> {0 .. c}" by simp
next
  fix x assume "x \<in> {0 .. c}"
  then have x: "0 \<le> x" "x \<le> c" by simp_all
  then have "int (nat x) mod (c + 1) = x" by simp
  then have "Intn (c + 1) (nat x) = Inr x" using assms by (simp add: Intn_def)
  then show "x \<in> {r. \<exists>g. Intn (c + 1) g = Inr r}" by blast
qed

subsection \<open>Tasks that leave a unit at its warehouse\<close>

lemma ready_task:
  assumes "ready s" and "processDelivery r out u s = Inr s'"
  shows "ready s'"
proof -
  have c: "0 \<le> maxMoveWaitNumber s" "maxMoveWaitNumber s < 2 ^ 63 - 1"
    using assms(1) by (simp_all add: ready_def)
  from task_pace [OF assms(2)] nextCeiling_eq [OF c, of "draw out"]
  have "maxMoveWaitNumber s' = (int (draw out) mod (maxMoveWaitNumber s + 1) + 1) div 2" by simp
  with next_bounds [OF c(1), of "draw out"] c
  have "0 \<le> maxMoveWaitNumber s' \<and> maxMoveWaitNumber s' < 2 ^ 63 - 1" by linarith
  moreover have "length (Operation (statistics s')) = 2"
    using task_counts [OF assms(2)] assms(1) by (simp add: ready_def)
  ultimately show ?thesis by (simp add: ready_def)
qed

lemma task_stays:
  assumes "ready s" and "u < length (deliveryUnits (worldOperator s))"
    and "snd (MoveDeliveryUnitToNearestWarehouse r u (worldOperator s)) =
           Coordinate (deliveryUnits (worldOperator s) ! u)"
    and "moveResp out \<noteq> None \<or> reachResp out \<noteq> None"
    and "processDelivery r out u s = Inr s'"
  shows "worldOperator s' = worldOperator s"
proof -
  have l2: "length (Operation (statistics s)) = 2" using assms(1) by (simp add: ready_def)
  show ?thesis
    using assms(2-5) l2
    by (auto simp: processDelivery_ready [OF assms(1,2)] afterMove_def Let_def
        MoveDeliveryUnitToNearestWarehouse_def split: option.splits if_splits)
qed

lemma tasks_hold:
  assumes "ready s" and "u < length (deliveryUnits (worldOperator s))"
    and "snd (MoveDeliveryUnitToNearestWarehouse r u (worldOperator s)) =
           Coordinate (deliveryUnits (worldOperator s) ! u)"
    and "\<forall>x \<in> set xs. snd x = u \<longrightarrow> moveResp (fst x) \<noteq> None \<or> reachResp (fst x) \<noteq> None"
    and "tasks r xs s = Inr s'"
  shows "ready s' \<and>
    deliveryUnits (worldOperator s') ! u = deliveryUnits (worldOperator s) ! u \<and>
    warehouses (worldOperator s') = warehouses (worldOperator s) \<and>
    length (deliveryUnits (worldOperator s')) = length (deliveryUnits (worldOperator s))"
  using assms
proof (induction xs arbitrary: s)
  case Nil
  then show ?case by simp
next
  case (Cons x xs)
  from Cons.prems(5) obtain s1 where s1: "processDelivery r (fst x) (snd x) s = Inr s1"
    and rest: "tasks r xs s1 = Inr s'"
    by (auto split: sum.splits)
  have r1: "ready s1" using Cons.prems(1) s1 by (rule ready_task)
  have keep: "deliveryUnits (worldOperator s1) ! u = deliveryUnits (worldOperator s) ! u \<and>
    warehouses (worldOperator s1) = warehouses (worldOperator s) \<and>
    length (deliveryUnits (worldOperator s1)) = length (deliveryUnits (worldOperator s))"
  proof (cases "snd x = u")
    case True
    with Cons.prems(4) have "moveResp (fst x) \<noteq> None \<or> reachResp (fst x) \<noteq> None" by simp
    from task_stays [OF Cons.prems(1,2,3) this] s1 True
    have "worldOperator s1 = worldOperator s" by simp
    then show ?thesis by simp
  next
    case False
    with task_world [OF s1] show ?thesis by simp
  qed
  have u1: "u < length (deliveryUnits (worldOperator s1))" using keep Cons.prems(2) by simp
  have m1: "snd (MoveDeliveryUnitToNearestWarehouse r u (worldOperator s1)) =
           Coordinate (deliveryUnits (worldOperator s1) ! u)"
    using Cons.prems(3) keep by (simp add: MoveDeliveryUnitToNearestWarehouse_def Let_def)
  have c1: "\<forall>x \<in> set xs. snd x = u \<longrightarrow> moveResp (fst x) \<noteq> None \<or> reachResp (fst x) \<noteq> None"
    using Cons.prems(4) by simp
  from Cons.IH [OF r1 u1 m1 c1 rest] keep show ?case by simp
qed

lemma arrival_again:
  assumes "ready s" and "u < length (deliveryUnits (worldOperator s))"
    and "snd (MoveDeliveryUnitToNearestWarehouse r u (worldOperator s)) =
           Coordinate (deliveryUnits (worldOperator s) ! u)"
    and "FindEntityByCoordinate (Coordinate (deliveryUnits (worldOperator s) ! u)) (worldOperator s) =
           Some warehouse"
    and "\<forall>x \<in> set xs. snd x = u \<longrightarrow> moveResp (fst x) \<noteq> None \<or> reachResp (fst x) \<noteq> None"
    and "tasks r xs s = Inr t"
    and "moveResp out = None"
  shows "\<exists>s'. processDelivery r out u t = Inr s' \<and>
      A (Operation (statistics s') ! 1) = A (Operation (statistics t) ! 1) + 1 \<and>
      sentSince t s' =
        [MoveUnitRequest (cargoId (deliveryUnits (worldOperator s) ! u))
           (word_of_int (X (Coordinate (deliveryUnits (worldOperator s) ! u))))
           (word_of_int (Y (Coordinate (deliveryUnits (worldOperator s) ! u)))),
         UnitReachedWarehouseRequest
           (word_of_int (X (Coordinate (deliveryUnits (worldOperator s) ! u))))
           (word_of_int (Y (Coordinate (deliveryUnits (worldOperator s) ! u))))
           (cargoId (deliveryUnits (worldOperator s) ! u)) (cargoId warehouse)
           (unitMessage (deliveryUnits (worldOperator s) ! u)
              (Coordinate (deliveryUnits (worldOperator s) ! u)) @ '' - Reached Objective.'')]"
proof -
  from tasks_hold [OF assms(1,2,3,5,6)]
  have rt: "ready t"
    and same: "deliveryUnits (worldOperator t) ! u = deliveryUnits (worldOperator s) ! u"
    and wh: "warehouses (worldOperator t) = warehouses (worldOperator s)"
    and len: "length (deliveryUnits (worldOperator t)) = length (deliveryUnits (worldOperator s))"
    by simp_all
  have ut: "u < length (deliveryUnits (worldOperator t))" using len assms(2) by simp
  have mt: "snd (MoveDeliveryUnitToNearestWarehouse r u (worldOperator t)) =
           Coordinate (deliveryUnits (worldOperator t) ! u)"
    using assms(3) same wh by (simp add: MoveDeliveryUnitToNearestWarehouse_def Let_def)
  have ft: "FindEntityByCoordinate (Coordinate (deliveryUnits (worldOperator t) ! u)) (worldOperator t) =
           Some warehouse"
    using assms(4) same wh by (simp add: FindEntityByCoordinate_def)
  from arrival_step [OF rt ut assms(7) mt ft] show ?thesis unfolding same by blast
qed

subsection \<open>The next round of a unit at its warehouse\<close>

lemma spawn_outcomes:
  assumes "spawn r env us s = Inr s'"
  shows "\<exists>xs. tasks r xs s = Inr s' \<and> (\<forall>x \<in> set xs. fst x = env (snd x))"
  using assms
proof (induction us arbitrary: s)
  case Nil
  then have "tasks r [] s = Inr s' \<and> (\<forall>x \<in> set []. fst x = env (snd x))" by simp
  then show ?case by blast
next
  case (Cons u us)
  show ?case
  proof (cases "Metadata (deliveryUnits (worldOperator s) ! u)")
    case True
    with Cons.prems have "spawn r env us s = Inr s'" by simp
    then show ?thesis by (rule Cons.IH)
  next
    case False
    with Cons.prems obtain s1 where s1: "processDelivery r (env u) u s = Inr s1"
      and rest: "spawn r env us s1 = Inr s'"
      by (auto split: sum.splits)
    from Cons.IH [OF rest] obtain xs where xs: "tasks r xs s1 = Inr s'"
      and p: "\<forall>x \<in> set xs. fst x = env (snd x)" by blast
    from xs s1 p have "tasks r ((env u, u) # xs) s = Inr s' \<and>
        (\<forall>x \<in> set ((env u, u) # xs). fst x = env (snd x))" by simp
    then show ?thesis by blast
  qed
qed

lemma rounds_outcomes:
  assumes "rounds r env us k n s = Inr s'"
  shows "\<exists>xs. tasks r xs s = Inr s' \<and>
    (\<forall>x \<in> set xs. \<exists>k'. k \<le> k' \<and> k' < k + n \<and> fst x = env k' (snd x))"
  using assms
proof (induction n arbitrary: k s)
  case 0
  then have "tasks r [] s = Inr s' \<and>
    (\<forall>x \<in> set []. \<exists>k'. k \<le> k' \<and> k' < k + 0 \<and> fst x = env k' (snd x))" by simp
  then show ?case by blast
next
  case (Suc n)
  from Suc.prems obtain s1 where s1: "spawn r (env k) us s = Inr s1"
    and rest: "rounds r env us (Suc k) n s1 = Inr s'"
    by (auto split: sum.splits)
  from spawn_outcomes [OF s1] obtain xs where xs: "tasks r xs s = Inr s1"
    and px: "\<forall>x \<in> set xs. fst x = env k (snd x)" by blast
  from Suc.IH [OF rest] obtain ys where ys: "tasks r ys s1 = Inr s'"
    and py: "\<forall>x \<in> set ys. \<exists>k'. Suc k \<le> k' \<and> k' < Suc k + n \<and> fst x = env k' (snd x)" by blast
  from xs ys have t: "tasks r (xs @ ys) s = Inr s'" by (rule tasks_append)
  have "\<forall>x \<in> set (xs @ ys). \<exists>k'. k \<le> k' \<and> k' < k + Suc n \<and> fst x = env k' (snd x)"
  proof
    fix x assume "x \<in> set (xs @ ys)"
    then consider "x \<in> set xs" | "x \<in> set ys" by auto
    then show "\<exists>k'. k \<le> k' \<and> k' < k + Suc n \<and> fst x = env k' (snd x)"
    proof cases
      case 1
      with px have "k \<le> k \<and> k < k + Suc n \<and> fst x = env k (snd x)" by simp
      then show ?thesis by blast
    next
      case 2
      with py obtain k' where "Suc k \<le> k'" "k' < Suc k + n" "fst x = env k' (snd x)" by blast
      then have "k \<le> k' \<and> k' < k + Suc n \<and> fst x = env k' (snd x)" by simp
      then show ?thesis by blast
    qed
  qed
  with t show ?case by blast
qed

lemma tasks_sent:
  assumes "tasks r xs s = Inr s'"
  shows "\<exists>new. sent s' = sent s @ new"
  using assms
proof (induction xs arbitrary: s)
  case Nil
  then show ?case by simp
next
  case (Cons x xs)
  from Cons.prems obtain s1 where s1: "processDelivery r (fst x) (snd x) s = Inr s1"
    and rest: "tasks r xs s1 = Inr s'"
    by (auto split: sum.splits)
  from task_sent [OF s1] obtain a where a: "sent s1 = sent s @ a" by blast
  from Cons.IH [OF rest] obtain b where "sent s' = sent s1 @ b" by blast
  with a have "sent s' = sent s @ (a @ b)" by simp
  then show ?case by blast
qed

lemma sentSince_append:
  assumes "sent s1 = sent s @ a" and "sent s' = sent s1 @ b"
  shows "sentSince s s' = a @ sentSince s1 s'"
  using assms by (simp add: sentSince_def)

lemma spawn_again:
  assumes "ready s" and "u < length (deliveryUnits (worldOperator s))"
    and "deliveryUnits (worldOperator s) ! u = unit" and "\<not> Metadata unit"
    and "r (map Coordinate (warehouses (worldOperator s))) (Coordinate unit) = Coordinate unit"
    and "find (\<lambda>w. Coordinate w = Coordinate unit) (warehouses (worldOperator s)) = Some warehouse"
    and "u \<in> set us" and "moveResp (env u) = None"
    and "spawn r env us s = Inr s'"
  shows "\<exists>pre post. sentSince s s' = pre @
        [MoveUnitRequest (cargoId unit)
           (word_of_int (X (Coordinate unit))) (word_of_int (Y (Coordinate unit))),
         UnitReachedWarehouseRequest
           (word_of_int (X (Coordinate unit))) (word_of_int (Y (Coordinate unit)))
           (cargoId unit) (cargoId warehouse)
           (unitMessage unit (Coordinate unit) @ '' - Reached Objective.'')] @ post"
  using assms
proof (induction us arbitrary: s)
  case Nil
  then show ?case by simp
next
  case (Cons v us)
  let ?two = "[MoveUnitRequest (cargoId unit)
           (word_of_int (X (Coordinate unit))) (word_of_int (Y (Coordinate unit))),
         UnitReachedWarehouseRequest
           (word_of_int (X (Coordinate unit))) (word_of_int (Y (Coordinate unit)))
           (cargoId unit) (cargoId warehouse)
           (unitMessage unit (Coordinate unit) @ '' - Reached Objective.'')]"
  show ?case
  proof (cases "v = u")
    case True
    have mv: "snd (MoveDeliveryUnitToNearestWarehouse r u (worldOperator s)) =
           Coordinate (deliveryUnits (worldOperator s) ! u)"
      using Cons.prems(3,5) by (simp add: MoveDeliveryUnitToNearestWarehouse_def Let_def)
    have fd: "FindEntityByCoordinate (Coordinate (deliveryUnits (worldOperator s) ! u))
           (worldOperator s) = Some warehouse"
      using Cons.prems(3,6) by (simp add: FindEntityByCoordinate_def)
    from arrival_step [OF Cons.prems(1,2,8) mv fd]
    obtain s1 where s1: "processDelivery r (env u) u s = Inr s1"
      and q: "sentSince s s1 = ?two"
      unfolding Cons.prems(3) by blast
    from Cons.prems(9) True Cons.prems(3,4) s1 have rest: "spawn r env us s1 = Inr s'" by simp
    from task_sent [OF s1] obtain a where a: "sent s1 = sent s @ a" by blast
    from spawn_tasks [OF rest] obtain xs where "tasks r xs s1 = Inr s'" by blast
    from tasks_sent [OF this] obtain b where b: "sent s' = sent s1 @ b" by blast
    from a q have "a = ?two" by (simp add: sentSince_def)
    with a b have "sentSince s s' = [] @ ?two @ b" by (simp add: sentSince_def)
    then show ?thesis by blast
  next
    case False
    with Cons.prems(7) have uin: "u \<in> set us" by simp
    show ?thesis
    proof (cases "Metadata (deliveryUnits (worldOperator s) ! v)")
      case True
      with Cons.prems(9) have "spawn r env us s = Inr s'" by simp
      from Cons.IH [OF Cons.prems(1-6) uin Cons.prems(8) this] show ?thesis .
    next
      case nm: False
      with Cons.prems(9) obtain s1 where s1: "processDelivery r (env v) v s = Inr s1"
        and rest: "spawn r env us s1 = Inr s'"
        by (auto split: sum.splits)
      have r1: "ready s1" using Cons.prems(1) s1 by (rule ready_task)
      from task_world [OF s1] False
      have wh: "warehouses (worldOperator s1) = warehouses (worldOperator s)"
        and len: "length (deliveryUnits (worldOperator s1)) = length (deliveryUnits (worldOperator s))"
        and same: "deliveryUnits (worldOperator s1) ! u = deliveryUnits (worldOperator s) ! u"
        by simp_all
      have u1: "u < length (deliveryUnits (worldOperator s1))" using len Cons.prems(2) by simp
      have n1: "deliveryUnits (worldOperator s1) ! u = unit" using same Cons.prems(3) by simp
      have m1: "r (map Coordinate (warehouses (worldOperator s1))) (Coordinate unit) = Coordinate unit"
        unfolding wh by (rule Cons.prems(5))
      have f1: "find (\<lambda>w. Coordinate w = Coordinate unit) (warehouses (worldOperator s1)) = Some warehouse"
        unfolding wh by (rule Cons.prems(6))
      from Cons.IH [OF r1 u1 n1 Cons.prems(4) m1 f1 uin Cons.prems(8) rest]
      obtain pre post where pp: "sentSince s1 s' = pre @ ?two @ post" by blast
      from task_sent [OF s1] obtain a where a: "sent s1 = sent s @ a" by blast
      from spawn_tasks [OF rest] obtain xs where "tasks r xs s1 = Inr s'" by blast
      from tasks_sent [OF this] obtain b where b: "sent s' = sent s1 @ b" by blast
      from sentSince_append [OF a b] pp have "sentSince s s' = (a @ pre) @ ?two @ post" by simp
      then show ?thesis by blast
    qed
  qed
qed

lemma round_again:
  assumes "ready s" and "u < length (deliveryUnits (worldOperator s))"
    and "\<not> Metadata (deliveryUnits (worldOperator s) ! u)"
    and "snd (MoveDeliveryUnitToNearestWarehouse r u (worldOperator s)) =
           Coordinate (deliveryUnits (worldOperator s) ! u)"
    and "FindEntityByCoordinate (Coordinate (deliveryUnits (worldOperator s) ! u)) (worldOperator s) =
           Some warehouse"
    and "u \<in> set us"
    and "\<forall>k'. k \<le> k' \<and> k' < k + n \<longrightarrow> moveResp (env k' u) \<noteq> None \<or> reachResp (env k' u) \<noteq> None"
    and "rounds r env us k n s = Inr t"
    and "moveResp (env (k + n) u) = None"
    and "spawn r (env (k + n)) us t = Inr t'"
  shows "\<exists>pre post. sentSince t t' = pre @
        [MoveUnitRequest (cargoId (deliveryUnits (worldOperator s) ! u))
           (word_of_int (X (Coordinate (deliveryUnits (worldOperator s) ! u))))
           (word_of_int (Y (Coordinate (deliveryUnits (worldOperator s) ! u)))),
         UnitReachedWarehouseRequest
           (word_of_int (X (Coordinate (deliveryUnits (worldOperator s) ! u))))
           (word_of_int (Y (Coordinate (deliveryUnits (worldOperator s) ! u))))
           (cargoId (deliveryUnits (worldOperator s) ! u)) (cargoId warehouse)
           (unitMessage (deliveryUnits (worldOperator s) ! u)
              (Coordinate (deliveryUnits (worldOperator s) ! u)) @ '' - Reached Objective.'')] @ post"
proof -
  from rounds_outcomes [OF assms(8)] obtain xs where xs: "tasks r xs s = Inr t"
    and p: "\<forall>x \<in> set xs. \<exists>k'. k \<le> k' \<and> k' < k + n \<and> fst x = env k' (snd x)" by blast
  have c: "\<forall>x \<in> set xs. snd x = u \<longrightarrow> moveResp (fst x) \<noteq> None \<or> reachResp (fst x) \<noteq> None"
  proof (intro ballI impI)
    fix x assume "x \<in> set xs" and u: "snd x = u"
    with p obtain k' where "k \<le> k'" "k' < k + n" and e: "fst x = env k' (snd x)" by blast
    with assms(7) have "moveResp (env k' u) \<noteq> None \<or> reachResp (env k' u) \<noteq> None" by blast
    with e u show "moveResp (fst x) \<noteq> None \<or> reachResp (fst x) \<noteq> None" by simp
  qed
  from tasks_hold [OF assms(1,2,4) c xs]
  have rt: "ready t"
    and same: "deliveryUnits (worldOperator t) ! u = deliveryUnits (worldOperator s) ! u"
    and wh: "warehouses (worldOperator t) = warehouses (worldOperator s)"
    and len: "length (deliveryUnits (worldOperator t)) = length (deliveryUnits (worldOperator s))"
    by simp_all
  have ut: "u < length (deliveryUnits (worldOperator t))" using len assms(2) by simp
  have m: "r (map Coordinate (warehouses (worldOperator t)))
      (Coordinate (deliveryUnits (worldOperator s) ! u)) = Coordinate (deliveryUnits (worldOperator s) ! u)"
    using assms(4) unfolding wh by (simp add: MoveDeliveryUnitToNearestWarehouse_def Let_def)
  have f: "find (\<lambda>w. Coordinate w = Coordinate (deliveryUnits (worldOperator s) ! u))
      (warehouses (worldOperator t)) = Some warehouse"
    using assms(5) unfolding wh by (simp add: FindEntityByCoordinate_def)
  from spawn_again [OF rt ut same assms(3) m f assms(6,9,10)] show ?thesis .
qed

subsection \<open>All flags counted\<close>

lemma all_counted: "(length (filter P xs) = length xs) = (\<forall>x \<in> set xs. P x)"
proof (induction xs)
  case Nil
  then show ?case by simp
next
  case (Cons x xs)
  have le: "length (filter P xs) \<le> length xs" by (rule length_filter_le)
  show ?case
  proof (cases "P x")
    case True
    with Cons show ?thesis by simp
  next
    case False
    from le have "length (filter P xs) \<noteq> Suc (length xs)" by linarith
    with False show ?thesis by simp
  qed
qed

lemma all_arrived:
  "(unitsReachedObjective (GetDeliveryUnit (worldOperator s)) s' =
      length (GetDeliveryUnit (worldOperator s))) =
   (\<forall>u < length (deliveryUnits (worldOperator s)). Metadata (deliveryUnits (worldOperator s') ! u))"
  unfolding unitsReachedObjective_def GetDeliveryUnit_def all_counted by auto

section \<open>The claims\<close>

text \<open>
  Claim C1, as stated, fails: in the scenario, with a transport that always succeeds,
  three rounds return and leave U3 Pending, with two arrival reports counted, and the
  loop runs 4 rounds. A unit is reported in the first round in which the move leaves it
  where it was, one round after it has reached its warehouse.
\<close>

theorem scenario_counterexample:
  "\<not> isl (rounds gridRoute (reliable (\<lambda>k u. 0)) (GetDeliveryUnit (worldOperator scenario)) 0 3 scenario) \<and>
   map Metadata (deliveryUnits (worldOperator (projr
     (rounds gridRoute (reliable (\<lambda>k u. 0)) (GetDeliveryUnit (worldOperator scenario)) 0 3 scenario)))) =
     [True, True, False] \<and>
   map (\<lambda>p. (OpName p, A p, B p)) (Operation (statistics (projr
     (rounds gridRoute (reliable (\<lambda>k u. 0)) (GetDeliveryUnit (worldOperator scenario)) 0 3 scenario)))) =
     [(''MoveUnit'', 8, 0), (''UnitReachedWarehouse'', 2, 0)] \<and>
   map_option (map_sum id roundsRun) (Run gridRoute (reliable (\<lambda>k u. 0)) 0 scenario) = Some (Inr 4)"
proof -
  let ?g = "\<lambda>k u. 0 :: nat"
  let ?us = "GetDeliveryUnit (worldOperator scenario)"
  from scenario_round_3 [of ?g] obtain s
    where s: "rounds gridRoute (reliable ?g) [0, 1, 2] 0 3 scenario = Inr s"
      and u: "map (\<lambda>n. (Coordinate n, Metadata n)) (deliveryUnits (worldOperator s)) =
       [(\<lparr>X = 0, Y = 0\<rparr>, True), (\<lparr>X = 10, Y = 0\<rparr>, True), (\<lparr>X = 0, Y = 0\<rparr>, False)]"
      and c: "map (\<lambda>p. (OpName p, A p, B p)) (Operation (statistics s)) =
       [(''MoveUnit'', 8, 0), (''UnitReachedWarehouse'', 2, 0)]"
    by (elim exE conjE)
  have "map Metadata (deliveryUnits (worldOperator s)) =
      map snd (map (\<lambda>n. (Coordinate n, Metadata n)) (deliveryUnits (worldOperator s)))"
    by (simp add: comp_def)
  then have m: "map Metadata (deliveryUnits (worldOperator s)) = [True, True, False]"
    unfolding u by simp
  from scenario_round_4 [of ?g] obtain s4
    where s4: "rounds gridRoute (reliable ?g) [0, 1, 2] 0 4 scenario = Inr s4"
      and conv: "unitsReachedObjective [0, 1, 2] s4 = 3"
    by (elim exE conjE)
  have "Run gridRoute (reliable ?g) 0 scenario =
    Some (Inr \<lparr>roundsRun = 4, elapsed = Since (ExecTime (statistics scenario)) 0,
                table = reportTable scenario @ reportRows s4,
                final = s4\<lparr>reportTable := reportTable scenario @ reportRows s4\<rparr>\<rparr>)"
  proof (rule Run_exit)
    show "rounds gridRoute (reliable ?g) ?us 0 4 scenario = Inr s4"
      unfolding scenario_units by (rule s4)
    show "unitsReachedObjective ?us s4 = length ?us"
      unfolding scenario_units using conv by simp
    show "\<forall>m<4. \<forall>t. rounds gridRoute (reliable ?g) ?us 0 m scenario = Inr t \<longrightarrow>
        unitsReachedObjective ?us t \<noteq> length ?us"
      unfolding scenario_units by (rule scenario_before_4)
  qed
  then have r: "map_option (map_sum id roundsRun) (Run gridRoute (reliable ?g) 0 scenario) = Some (Inr 4)"
    by simp
  show ?thesis unfolding scenario_units s sum.sel using m c r by simp
qed

text \<open>
  Claim C1, amended: in the scenario, with a transport that always succeeds and
  whatever the draws are, the round loop exits after exactly 4 rounds with the three
  units Arrived; "UnitReachedWarehouse" ends at 3 attempts and no error, "MoveUnit" at
  9 attempts and no error. After 3 rounds U3 is still Pending.
\<close>

theorem scenario_rounds:
  "\<exists>rep. Run gridRoute (reliable g) now scenario = Some (Inr rep) \<and>
     roundsRun rep = 4 \<and>
     map Metadata (deliveryUnits (worldOperator (final rep))) = [True, True, True] \<and>
     map (\<lambda>p. (OpName p, A p, B p)) (Operation (statistics (final rep))) =
       [(''MoveUnit'', 9, 0), (''UnitReachedWarehouse'', 3, 0)] \<and>
     table rep = [[''Operation'', ''Count'', ''Errors''], [''MoveUnit'', ''9'', ''0''],
                  [''UnitReachedWarehouse'', ''3'', ''0'']] \<and>
     (\<exists>s3. rounds gridRoute (reliable g) (GetDeliveryUnit (worldOperator scenario)) 0 3 scenario = Inr s3 \<and>
        map Metadata (deliveryUnits (worldOperator s3)) = [True, True, False])"
proof -
  from scenario_round_4 [of g] obtain s
    where s: "rounds gridRoute (reliable g) [0, 1, 2] 0 4 scenario = Inr s"
      and u: "map (\<lambda>n. (Coordinate n, Metadata n)) (deliveryUnits (worldOperator s)) =
       [(\<lparr>X = 0, Y = 0\<rparr>, True), (\<lparr>X = 10, Y = 0\<rparr>, True), (\<lparr>X = 0, Y = 0\<rparr>, True)]"
      and c: "map (\<lambda>p. (OpName p, A p, B p)) (Operation (statistics s)) =
       [(''MoveUnit'', 9, 0), (''UnitReachedWarehouse'', 3, 0)]"
      and conv: "unitsReachedObjective [0, 1, 2] s = 3"
    by (elim exE conjE)
  from scenario_round_3 [of g] obtain s3
    where s3: "rounds gridRoute (reliable g) [0, 1, 2] 0 3 scenario = Inr s3"
      and u3: "map (\<lambda>n. (Coordinate n, Metadata n)) (deliveryUnits (worldOperator s3)) =
       [(\<lparr>X = 0, Y = 0\<rparr>, True), (\<lparr>X = 10, Y = 0\<rparr>, True), (\<lparr>X = 0, Y = 0\<rparr>, False)]"
    by (elim exE conjE)
  have "map Metadata (deliveryUnits (worldOperator s)) =
      map snd (map (\<lambda>n. (Coordinate n, Metadata n)) (deliveryUnits (worldOperator s)))"
    by (simp add: comp_def)
  then have m: "map Metadata (deliveryUnits (worldOperator s)) = [True, True, True]"
    unfolding u by simp
  have "map Metadata (deliveryUnits (worldOperator s3)) =
      map snd (map (\<lambda>n. (Coordinate n, Metadata n)) (deliveryUnits (worldOperator s3)))"
    by (simp add: comp_def)
  then have m3: "map Metadata (deliveryUnits (worldOperator s3)) = [True, True, False]"
    unfolding u3 by simp
  have "reportRows s = map (\<lambda>t. [fst t, FormatUint (fst (snd t)), FormatUint (snd (snd t))])
      (map (\<lambda>p. (OpName p, A p, B p)) (Operation (statistics s)))"
    by (simp add: reportRows_def comp_def)
  then have rows: "reportRows s = [[''MoveUnit'', ''9'', ''0''], [''UnitReachedWarehouse'', ''3'', ''0'']]"
    unfolding c by (simp add: FormatUint_def digit_def)
  have run: "Run gridRoute (reliable g) now scenario =
    Some (Inr \<lparr>roundsRun = 4, elapsed = Since (ExecTime (statistics scenario)) now,
                table = reportTable scenario @ reportRows s,
                final = s\<lparr>reportTable := reportTable scenario @ reportRows s\<rparr>\<rparr>)"
  proof (rule Run_exit)
    show "rounds gridRoute (reliable g) (GetDeliveryUnit (worldOperator scenario)) 0 4 scenario = Inr s"
      unfolding scenario_units by (rule s)
    show "unitsReachedObjective (GetDeliveryUnit (worldOperator scenario)) s =
        length (GetDeliveryUnit (worldOperator scenario))"
      unfolding scenario_units using conv by simp
    show "\<forall>m<4. \<forall>t. rounds gridRoute (reliable g) (GetDeliveryUnit (worldOperator scenario)) 0 m scenario = Inr t \<longrightarrow>
        unitsReachedObjective (GetDeliveryUnit (worldOperator scenario)) t \<noteq>
          length (GetDeliveryUnit (worldOperator scenario))"
      unfolding scenario_units by (rule scenario_before_4)
  qed
  show ?thesis
    unfolding run scenario_units using m c rows s3 m3 by (simp add: scenario_def)
qed

text \<open>
  Claim C2, as stated, fails: from the ceiling 1 the task can draw 2, which is not a
  value of \<open>[1, 1]\<close>, and the ceiling after the update is then 1, which is not half
  of a value of \<open>[1, 1]\<close>.
\<close>

theorem pacing_update_counterexample:
  "drawCeiling 1 1 = Inr 2 \<and> (2::int) \<notin> {1 .. 1} \<and>
   nextCeiling 1 1 = Inr 1 \<and> 1 \<notin> spec_ceilings 1"
  by (simp add: nextCeiling_eq drawCeiling_eq spec_ceilings_def)

text \<open>
  Claim C2, amended: the update of one task run on its own, as when the tasks run one
  after the other, so that no other task writes the ceiling between the draw and the
  halving. For a ceiling \<open>c\<close> with \<open>0 \<le> c < 2^63 - 1\<close>, the update, made after the
  sleep of the old ceiling's duration, draws \<open>rand.Intn(c + 1) + 1\<close>: the draw is \<open>d\<close>
  exactly when \<open>rand.Intn(c + 1)\<close> gives \<open>d - 1\<close>, and \<open>rand.Intn(c + 1)\<close> gives exactly
  the values of \<open>[0, c]\<close>. So every value of \<open>[1, c + 1]\<close> is drawn, for exactly one
  value of \<open>rand.Intn\<close>, and the draw is as uniform as \<open>rand.Intn\<close> is. The draw is
  halved rounding down: the new ceiling is \<open>(r + 1) div 2\<close> for the value \<open>r\<close> of
  \<open>rand.Intn\<close>, and the ceilings possible after the update are exactly the halves of
  the values of \<open>[1, c + 1]\<close>.
\<close>

theorem pacing_update_range:
  assumes "0 \<le> maxMoveWaitNumber s" and "maxMoveWaitNumber s < 2 ^ 63 - 1"
  shows "(\<exists>d. drawCeiling (maxMoveWaitNumber s) g = Inr d \<and>
            1 \<le> d \<and> d \<le> maxMoveWaitNumber s + 1 \<and>
            pace g s = Inr (s\<lparr>slept := slept s @ [waitDuration (maxMoveWaitNumber s)],
                              maxMoveWaitNumber := d div 2\<rparr>)) \<and>
         (\<forall>d. (drawCeiling (maxMoveWaitNumber s) g = Inr d) =
               (Intn (maxMoveWaitNumber s + 1) g = Inr (d - 1))) \<and>
         (\<forall>c'. (nextCeiling (maxMoveWaitNumber s) g = Inr c') =
               (\<exists>r. Intn (maxMoveWaitNumber s + 1) g = Inr r \<and> c' = (r + 1) div 2)) \<and>
         {r. \<exists>g. Intn (maxMoveWaitNumber s + 1) g = Inr r} = {0 .. maxMoveWaitNumber s} \<and>
         (\<forall>d\<in>{1 .. maxMoveWaitNumber s + 1}. drawCeiling (maxMoveWaitNumber s) (nat (d - 1)) = Inr d) \<and>
         {d. \<exists>g. drawCeiling (maxMoveWaitNumber s) g = Inr d} = {1 .. maxMoveWaitNumber s + 1} \<and>
         {c'. \<exists>g. nextCeiling (maxMoveWaitNumber s) g = Inr c'} =
           (\<lambda>d. d div 2) ` {1 .. maxMoveWaitNumber s + 1}"
proof -
  let ?c = "maxMoveWaitNumber s"
  have pos: "0 < ?c + 1" using assms(1) by simp
  have 1: "\<exists>d. drawCeiling ?c g = Inr d \<and> 1 \<le> d \<and> d \<le> ?c + 1 \<and>
            pace g s = Inr (s\<lparr>slept := slept s @ [waitDuration ?c], maxMoveWaitNumber := d div 2\<rparr>)"
    using draw_bounds [OF assms(1), of g]
    by (simp add: drawCeiling_eq [OF assms] pace_eq [OF assms])
  have 2: "\<forall>d\<in>{1 .. ?c + 1}. drawCeiling ?c (nat (d - 1)) = Inr d"
    by (simp add: drawCeiling_eq [OF assms])
  have 3: "\<forall>d. (drawCeiling ?c g = Inr d) = (Intn (?c + 1) g = Inr (d - 1))"
    unfolding drawCeiling_eq [OF assms] Intn_eq [OF pos] by auto
  have 4: "\<forall>c'. (nextCeiling ?c g = Inr c') =
               (\<exists>r. Intn (?c + 1) g = Inr r \<and> c' = (r + 1) div 2)"
    unfolding nextCeiling_eq [OF assms] Intn_eq [OF pos] by auto
  show ?thesis
    using 1 2 3 4 possible_Intn [OF assms(1)] possible_draws [OF assms] possible_ceilings [OF assms]
    by blast
qed

theorem pacing_update_range_witness:
  "0 \<le> maxMoveWaitNumber scenario \<and> maxMoveWaitNumber scenario < 2 ^ 63 - 1 \<and>
   Intn 101 1000 = Inr 91 \<and> drawCeiling 100 1000 = Inr 92 \<and> nextCeiling 100 1000 = Inr 46 \<and>
   drawCeiling 100 100 = Inr 101 \<and>
   maxMoveWaitNumber (projr (pace 100 scenario)) = 50 \<and>
   slept (projr (pace 100 scenario)) = [100000] \<and>
   {c'. \<exists>g. nextCeiling 100 g = Inr c'} = (\<lambda>d. d div 2) ` {1 .. 101}"
proof -
  have h1: "0 \<le> maxMoveWaitNumber scenario" by (simp add: scenario_def)
  have h2: "maxMoveWaitNumber scenario < 2 ^ 63 - 1" by (simp add: scenario_def)
  have c: "maxMoveWaitNumber scenario = 100" by (simp add: scenario_def)
  note t = pacing_update_range [OF h1 h2, of 100, unfolded c]
  note t' = pacing_update_range [OF h1 h2, of 1000, unfolded c]
  have i: "Intn 101 1000 = Inr 91" by (simp add: Intn_def)
  from t' have "(drawCeiling 100 1000 = Inr 92) = (Intn (100 + 1) 1000 = Inr (92 - 1))" by blast
  with i have d92: "drawCeiling 100 1000 = Inr 92" by simp
  from t' have "(nextCeiling 100 1000 = Inr 46) =
      (\<exists>r. Intn (100 + 1) 1000 = Inr r \<and> 46 = (r + 1) div 2)" by blast
  with i have n46: "nextCeiling 100 1000 = Inr 46" by simp
  from t have "\<forall>d\<in>{1 .. 101}. drawCeiling 100 (nat (d - 1)) = Inr d" by simp
  then have "drawCeiling 100 (nat (101 - 1)) = Inr 101" by (rule bspec) simp
  then have d: "drawCeiling 100 100 = Inr 101" by simp
  from t obtain d' where "drawCeiling 100 100 = Inr d'"
    and p: "pace 100 scenario =
      Inr (scenario\<lparr>slept := slept scenario @ [waitDuration 100], maxMoveWaitNumber := d' div 2\<rparr>)"
    by blast
  with d have "d' = 101" by simp
  with p have "maxMoveWaitNumber (projr (pace 100 scenario)) = 50"
    and "slept (projr (pace 100 scenario)) = [100000]"
    by (simp_all add: scenario_def waitDuration_def int64_def)
  moreover from t have "{c'. \<exists>g. nextCeiling 100 g = Inr c'} = (\<lambda>d. d div 2) ` {1 .. 101}"
    by simp
  ultimately show ?thesis using h1 h2 d i d92 n46 by blast
qed

text \<open>
  Claim C3, as stated, fails: unit U2 is Pending at warehouse W2, its move leaves it
  where it is, and W2 is found at its coordinate. When its movement report fails, the
  task returns at line 190: no attempt of "UnitReachedWarehouse" is counted, and the
  movement request is the only request sent, so no arrival report is issued.
\<close>

theorem arrival_report_counterexample:
  "\<not> Metadata (deliveryUnits (worldOperator docked) ! 1) \<and>
   snd (MoveDeliveryUnitToNearestWarehouse gridRoute 1 (worldOperator docked)) =
     Coordinate (deliveryUnits (worldOperator docked) ! 1) \<and>
   FindEntityByCoordinate (Coordinate (deliveryUnits (worldOperator docked) ! 1)) (worldOperator docked) =
     Some \<lparr>ID = 2, Name = ''W2'', Coordinate = \<lparr>X = 10, Y = 0\<rparr>, Metadata = False\<rparr> \<and>
   \<not> isl (processDelivery gridRoute
       \<lparr>draw = 3, moveResp = Some (ApiError ''unavailable''), reachResp = None\<rparr> 1 docked) \<and>
   A (Operation (statistics docked) ! 1) = 0 \<and>
   A (Operation (statistics (projr (processDelivery gridRoute
       \<lparr>draw = 3, moveResp = Some (ApiError ''unavailable''), reachResp = None\<rparr> 1 docked))) ! 1) = 0 \<and>
   sent docked = [] \<and>
   sent (projr (processDelivery gridRoute
       \<lparr>draw = 3, moveResp = Some (ApiError ''unavailable''), reachResp = None\<rparr> 1 docked)) =
     [MoveUnitRequest 12 10 0] \<and>
   \<not> Metadata (deliveryUnits (worldOperator (projr (processDelivery gridRoute
       \<lparr>draw = 3, moveResp = Some (ApiError ''unavailable''), reachResp = None\<rparr> 1 docked))) ! 1)"
proof -
  have rd: "ready docked" by (simp add: ready_def docked_defs)
  have u: "1 < length (deliveryUnits (worldOperator docked))" by (simp add: docked_defs)
  have p: "processDelivery gridRoute
       \<lparr>draw = 3, moveResp = Some (ApiError ''unavailable''), reachResp = None\<rparr> 1 docked =
     Inr ((afterMove gridRoute \<lparr>draw = 3, moveResp = Some (ApiError ''unavailable''), reachResp = None\<rparr> 1 docked)
       \<lparr>statistics := (statistics (afterMove gridRoute
           \<lparr>draw = 3, moveResp = Some (ApiError ''unavailable''), reachResp = None\<rparr> 1 docked))
         \<lparr>Operation := (Operation (statistics (afterMove gridRoute
           \<lparr>draw = 3, moveResp = Some (ApiError ''unavailable''), reachResp = None\<rparr> 1 docked)))
           [0 := AddB (Operation (statistics (afterMove gridRoute
           \<lparr>draw = 3, moveResp = Some (ApiError ''unavailable''), reachResp = None\<rparr> 1 docked)) ! 0)]\<rparr>\<rparr>)"
    by (subst processDelivery_ready [OF rd u]) (simp add: Let_def)
  show ?thesis
    unfolding p
    by (simp add: afterMove_def Let_def MoveDeliveryUnitToNearestWarehouse_def
        FindEntityByCoordinate_def docked_defs AddA_def AddB_def cargoId_def)
qed

text \<open>
  Claim C3, amended: a Pending unit whose move left it where it was, whose movement
  report succeeded, and for which the lookup of line 197 finds a warehouse at that
  coordinate. The task counts an attempt of "UnitReachedWarehouse" and sends the arrival
  report after the movement report. When the arrival report fails, it counts an error
  and the unit is still Pending. Then, after any tasks that follow, of this unit or of
  others, among which no task of this unit has both its reports succeed, the unit is
  still Pending, and its next task whose movement report succeeds counts another
  attempt and sends the same two requests again. So, after any number of rounds in
  which the unit's two reports do not both succeed, the next round, when the unit's
  movement report succeeds in it, sends the same two requests among its requests. When
  the arrival report succeeds, no error is counted and the unit is Arrived.
\<close>

theorem arrival_report:
  assumes "ready s" and "u < length (deliveryUnits (worldOperator s))"
    and "\<not> Metadata (deliveryUnits (worldOperator s) ! u)"
    and "moveResp out = None"
    and "snd (MoveDeliveryUnitToNearestWarehouse r u (worldOperator s)) =
           Coordinate (deliveryUnits (worldOperator s) ! u)"
    and "FindEntityByCoordinate (Coordinate (deliveryUnits (worldOperator s) ! u)) (worldOperator s) =
           Some warehouse"
  shows "\<exists>s'. processDelivery r out u s = Inr s' \<and>
      A (Operation (statistics s') ! 1) = A (Operation (statistics s) ! 1) + 1 \<and>
      sentSince s s' =
        [MoveUnitRequest (cargoId (deliveryUnits (worldOperator s) ! u))
           (word_of_int (X (Coordinate (deliveryUnits (worldOperator s) ! u))))
           (word_of_int (Y (Coordinate (deliveryUnits (worldOperator s) ! u)))),
         UnitReachedWarehouseRequest
           (word_of_int (X (Coordinate (deliveryUnits (worldOperator s) ! u))))
           (word_of_int (Y (Coordinate (deliveryUnits (worldOperator s) ! u))))
           (cargoId (deliveryUnits (worldOperator s) ! u)) (cargoId warehouse)
           (unitMessage (deliveryUnits (worldOperator s) ! u)
              (Coordinate (deliveryUnits (worldOperator s) ! u)) @ '' - Reached Objective.'')] \<and>
      (case reachResp out of
         Some e \<Rightarrow>
           B (Operation (statistics s') ! 1) = B (Operation (statistics s) ! 1) + 1 \<and>
           \<not> Metadata (deliveryUnits (worldOperator s') ! u) \<and>
           (\<forall>out'. moveResp out' = None \<longrightarrow>
              (\<exists>s''. processDelivery r out' u s' = Inr s'' \<and>
                 A (Operation (statistics s'') ! 1) = A (Operation (statistics s') ! 1) + 1 \<and>
                 sentSince s' s'' = sentSince s s')) \<and>
           (\<forall>xs t out'.
              (\<forall>x \<in> set xs. snd x = u \<longrightarrow> moveResp (fst x) \<noteq> None \<or> reachResp (fst x) \<noteq> None) \<and>
              tasks r xs s' = Inr t \<and> moveResp out' = None \<longrightarrow>
              \<not> Metadata (deliveryUnits (worldOperator t) ! u) \<and>
              (\<exists>s''. processDelivery r out' u t = Inr s'' \<and>
                 A (Operation (statistics s'') ! 1) = A (Operation (statistics t) ! 1) + 1 \<and>
                 sentSince t s'' = sentSince s s')) \<and>
           (\<forall>env us k n t t'.
              u \<in> set us \<and>
              (\<forall>k'. k \<le> k' \<and> k' < k + n \<longrightarrow>
                 moveResp (env k' u) \<noteq> None \<or> reachResp (env k' u) \<noteq> None) \<and>
              rounds r env us k n s' = Inr t \<and>
              moveResp (env (k + n) u) = None \<and>
              spawn r (env (k + n)) us t = Inr t' \<longrightarrow>
              (\<exists>pre post. sentSince t t' = pre @ sentSince s s' @ post))
       | None \<Rightarrow>
           B (Operation (statistics s') ! 1) = B (Operation (statistics s) ! 1) \<and>
           Metadata (deliveryUnits (worldOperator s') ! u))"
proof -
  from arrival_step [OF assms(1,2,4,5,6)]
  obtain s' where s': "processDelivery r out u s = Inr s'"
    and a: "A (Operation (statistics s') ! 1) = A (Operation (statistics s) ! 1) + 1"
    and q: "sentSince s s' =
        [MoveUnitRequest (cargoId (deliveryUnits (worldOperator s) ! u))
           (word_of_int (X (Coordinate (deliveryUnits (worldOperator s) ! u))))
           (word_of_int (Y (Coordinate (deliveryUnits (worldOperator s) ! u)))),
         UnitReachedWarehouseRequest
           (word_of_int (X (Coordinate (deliveryUnits (worldOperator s) ! u))))
           (word_of_int (Y (Coordinate (deliveryUnits (worldOperator s) ! u))))
           (cargoId (deliveryUnits (worldOperator s) ! u)) (cargoId warehouse)
           (unitMessage (deliveryUnits (worldOperator s) ! u)
              (Coordinate (deliveryUnits (worldOperator s) ! u)) @ '' - Reached Objective.'')]"
    and c: "case reachResp out of
         Some e \<Rightarrow>
           B (Operation (statistics s') ! 1) = B (Operation (statistics s) ! 1) + 1 \<and>
           worldOperator s' = worldOperator s \<and> ready s'
       | None \<Rightarrow>
           B (Operation (statistics s') ! 1) = B (Operation (statistics s) ! 1) \<and>
           Metadata (deliveryUnits (worldOperator s') ! u)"
    by blast
  show ?thesis
  proof (cases "reachResp out")
    case None
    with s' a q c show ?thesis by simp
  next
    case (Some e)
    with c have b: "B (Operation (statistics s') ! 1) = B (Operation (statistics s) ! 1) + 1"
      and w: "worldOperator s' = worldOperator s" and rd: "ready s'" by simp_all
    have u': "u < length (deliveryUnits (worldOperator s'))" unfolding w by (rule assms(2))
    have m': "snd (MoveDeliveryUnitToNearestWarehouse r u (worldOperator s')) =
           Coordinate (deliveryUnits (worldOperator s') ! u)"
      unfolding w by (rule assms(5))
    have f': "FindEntityByCoordinate (Coordinate (deliveryUnits (worldOperator s') ! u))
           (worldOperator s') = Some warehouse"
      unfolding w by (rule assms(6))
    have again: "\<exists>s''. processDelivery r out' u s' = Inr s'' \<and>
        A (Operation (statistics s'') ! 1) = A (Operation (statistics s') ! 1) + 1 \<and>
        sentSince s' s'' = sentSince s s'" if "moveResp out' = None" for out'
      using arrival_step [OF rd _ that, of u r warehouse] assms(2,5,6) unfolding w q by blast
    have later: "\<not> Metadata (deliveryUnits (worldOperator t) ! u) \<and>
        (\<exists>s''. processDelivery r out' u t = Inr s'' \<and>
           A (Operation (statistics s'') ! 1) = A (Operation (statistics t) ! 1) + 1 \<and>
           sentSince t s'' = sentSince s s')"
      if h: "(\<forall>x \<in> set xs. snd x = u \<longrightarrow> moveResp (fst x) \<noteq> None \<or> reachResp (fst x) \<noteq> None) \<and>
          tasks r xs s' = Inr t \<and> moveResp out' = None" for xs t and out' :: Outcome
    proof -
      from h have h1: "\<forall>x \<in> set xs. snd x = u \<longrightarrow> moveResp (fst x) \<noteq> None \<or> reachResp (fst x) \<noteq> None"
        and h2: "tasks r xs s' = Inr t" and h3: "moveResp out' = None" by simp_all
      from tasks_hold [OF rd u' m' h1 h2]
      have "deliveryUnits (worldOperator t) ! u = deliveryUnits (worldOperator s) ! u"
        unfolding w by simp
      with assms(3) have pend: "\<not> Metadata (deliveryUnits (worldOperator t) ! u)" by simp
      from arrival_again [OF rd u' m' f' h1 h2 h3]
      have "\<exists>s''. processDelivery r out' u t = Inr s'' \<and>
           A (Operation (statistics s'') ! 1) = A (Operation (statistics t) ! 1) + 1 \<and>
           sentSince t s'' = sentSince s s'"
        unfolding w q by blast
      with pend show ?thesis by simp
    qed
    have m: "\<not> Metadata (deliveryUnits (worldOperator s') ! u)" unfolding w by (rule assms(3))
    have round: "\<exists>pre post. sentSince t t' = pre @ sentSince s s' @ post"
      if h: "u \<in> set us \<and>
          (\<forall>k'. k \<le> k' \<and> k' < k + n \<longrightarrow>
             moveResp (env k' u) \<noteq> None \<or> reachResp (env k' u) \<noteq> None) \<and>
          rounds r env us k n s' = Inr t \<and>
          moveResp (env (k + n) u) = None \<and>
          spawn r (env (k + n)) us t = Inr t'" for env us k n t t'
    proof -
      from h have h1: "u \<in> set us"
        and h2: "\<forall>k'. k \<le> k' \<and> k' < k + n \<longrightarrow>
             moveResp (env k' u) \<noteq> None \<or> reachResp (env k' u) \<noteq> None"
        and h3: "rounds r env us k n s' = Inr t"
        and h4: "moveResp (env (k + n) u) = None"
        and h5: "spawn r (env (k + n)) us t = Inr t'" by simp_all
      from round_again [OF rd u' m m' f' h1 h2 h3 h4 h5]
      show ?thesis unfolding w q .
    qed
    show ?thesis
      unfolding Some option.case
    proof (rule exI [of _ s'], intro conjI allI impI)
      show "processDelivery r out u s = Inr s'" by (rule s')
      show "A (Operation (statistics s') ! 1) = A (Operation (statistics s) ! 1) + 1" by (rule a)
      show "sentSince s s' =
        [MoveUnitRequest (cargoId (deliveryUnits (worldOperator s) ! u))
           (word_of_int (X (Coordinate (deliveryUnits (worldOperator s) ! u))))
           (word_of_int (Y (Coordinate (deliveryUnits (worldOperator s) ! u)))),
         UnitReachedWarehouseRequest
           (word_of_int (X (Coordinate (deliveryUnits (worldOperator s) ! u))))
           (word_of_int (Y (Coordinate (deliveryUnits (worldOperator s) ! u))))
           (cargoId (deliveryUnits (worldOperator s) ! u)) (cargoId warehouse)
           (unitMessage (deliveryUnits (worldOperator s) ! u)
              (Coordinate (deliveryUnits (worldOperator s) ! u)) @ '' - Reached Objective.'')]"
        by (rule q)
      show "B (Operation (statistics s') ! 1) = B (Operation (statistics s) ! 1) + 1" by (rule b)
      show "\<not> Metadata (deliveryUnits (worldOperator s') ! u)" by (rule m)
    next
      fix out' :: Outcome
      assume "moveResp out' = None"
      then show "\<exists>s''. processDelivery r out' u s' = Inr s'' \<and>
        A (Operation (statistics s'') ! 1) = A (Operation (statistics s') ! 1) + 1 \<and>
        sentSince s' s'' = sentSince s s'" by (rule again)
    next
      fix env us k n t t'
      assume "u \<in> set us \<and>
          (\<forall>k'. k \<le> k' \<and> k' < k + n \<longrightarrow>
             moveResp (env k' u) \<noteq> None \<or> reachResp (env k' u) \<noteq> None) \<and>
          rounds r env us k n s' = Inr t \<and>
          moveResp (env (k + n) u) = None \<and>
          spawn r (env (k + n)) us t = Inr t'"
      then show "\<exists>pre post. sentSince t t' = pre @ sentSince s s' @ post" by (rule round)
    next
      fix xs t and out' :: Outcome
      assume h: "(\<forall>x \<in> set xs. snd x = u \<longrightarrow> moveResp (fst x) \<noteq> None \<or> reachResp (fst x) \<noteq> None) \<and>
          tasks r xs s' = Inr t \<and> moveResp out' = None"
      from later [OF h] show "\<not> Metadata (deliveryUnits (worldOperator t) ! u)" by simp
      from later [OF h] show "\<exists>s''. processDelivery r out' u t = Inr s'' \<and>
           A (Operation (statistics s'') ! 1) = A (Operation (statistics t) ! 1) + 1 \<and>
           sentSince t s'' = sentSince s s'" by simp
    qed
  qed
qed

theorem arrival_report_witness:
  "ready docked \<and> \<not> Metadata (deliveryUnits (worldOperator docked) ! 1) \<and>
   FindEntityByCoordinate \<lparr>X = 10, Y = 0\<rparr> (worldOperator docked) =
     Some \<lparr>ID = 2, Name = ''W2'', Coordinate = \<lparr>X = 10, Y = 0\<rparr>, Metadata = False\<rparr> \<and>
   A (Operation (statistics (projr (processDelivery gridRoute
       \<lparr>draw = 3, moveResp = None, reachResp = Some (ApiError ''unavailable'')\<rparr> 1 docked))) ! 1) = 1 \<and>
   B (Operation (statistics (projr (processDelivery gridRoute
       \<lparr>draw = 3, moveResp = None, reachResp = Some (ApiError ''unavailable'')\<rparr> 1 docked))) ! 1) = 1 \<and>
   \<not> Metadata (deliveryUnits (worldOperator (projr (processDelivery gridRoute
       \<lparr>draw = 3, moveResp = None, reachResp = Some (ApiError ''unavailable'')\<rparr> 1 docked))) ! 1) \<and>
   sent (projr (processDelivery gridRoute
       \<lparr>draw = 3, moveResp = None, reachResp = Some (ApiError ''unavailable'')\<rparr> 1 docked)) =
     [MoveUnitRequest 12 10 0,
      UnitReachedWarehouseRequest 10 0 12 2 ''U2 moving to - X:10, Y:0 - Reached Objective.''] \<and>
   B (Operation (statistics (projr (processDelivery gridRoute (reliable (\<lambda>k u. 3) 0 1) 1 docked))) ! 1) = 0 \<and>
   Metadata (deliveryUnits (worldOperator (projr (processDelivery gridRoute (reliable (\<lambda>k u. 3) 0 1) 1 docked))) ! 1) \<and>
   \<not> Metadata (deliveryUnits (worldOperator (projr (tasks gridRoute
       [(\<lparr>draw = 3, moveResp = None, reachResp = Some (ApiError ''unavailable'')\<rparr>, 1),
        (\<lparr>draw = 3, moveResp = Some (ApiError ''down''), reachResp = None\<rparr>, 1)] docked))) ! 1) \<and>
   A (Operation (statistics (projr (tasks gridRoute
       [(\<lparr>draw = 3, moveResp = None, reachResp = Some (ApiError ''unavailable'')\<rparr>, 1),
        (\<lparr>draw = 3, moveResp = Some (ApiError ''down''), reachResp = None\<rparr>, 1),
        (\<lparr>draw = 3, moveResp = None, reachResp = Some (ApiError ''unavailable'')\<rparr>, 1)] docked))) ! 1) = 2 \<and>
   sent (projr (tasks gridRoute
       [(\<lparr>draw = 3, moveResp = None, reachResp = Some (ApiError ''unavailable'')\<rparr>, 1),
        (\<lparr>draw = 3, moveResp = Some (ApiError ''down''), reachResp = None\<rparr>, 1),
        (\<lparr>draw = 3, moveResp = None, reachResp = Some (ApiError ''unavailable'')\<rparr>, 1)] docked)) =
     [MoveUnitRequest 12 10 0,
      UnitReachedWarehouseRequest 10 0 12 2 ''U2 moving to - X:10, Y:0 - Reached Objective.'',
      MoveUnitRequest 12 10 0,
      MoveUnitRequest 12 10 0,
      UnitReachedWarehouseRequest 10 0 12 2 ''U2 moving to - X:10, Y:0 - Reached Objective.''] \<and>
   (\<exists>pre post.
      sentSince
        (projr (rounds gridRoute (failing 2) [0, 1] 0 1 (projr (processDelivery gridRoute
           \<lparr>draw = 3, moveResp = None, reachResp = Some (ApiError ''unavailable'')\<rparr> 1 docked))))
        (projr (spawn gridRoute (failing 2 1) [0, 1]
           (projr (rounds gridRoute (failing 2) [0, 1] 0 1 (projr (processDelivery gridRoute
              \<lparr>draw = 3, moveResp = None, reachResp = Some (ApiError ''unavailable'')\<rparr> 1 docked)))))) =
      pre @ [MoveUnitRequest 12 10 0,
             UnitReachedWarehouseRequest 10 0 12 2 ''U2 moving to - X:10, Y:0 - Reached Objective.''] @ post)"
proof -
  let ?bad = "\<lparr>draw = 3, moveResp = None, reachResp = Some (ApiError ''unavailable'')\<rparr>"
  let ?mv = "\<lparr>draw = 3, moveResp = Some (ApiError ''down''), reachResp = None\<rparr>"
  let ?ok = "reliable (\<lambda>k u. 3) 0 1"
  let ?w2 = "\<lparr>ID = 2, Name = ''W2'', Coordinate = \<lparr>X = 10, Y = 0\<rparr>, Metadata = False\<rparr>"
  have h1: "ready docked" by (simp add: ready_def docked_defs)
  have h2: "1 < length (deliveryUnits (worldOperator docked))" by (simp add: docked_defs)
  have h3: "\<not> Metadata (deliveryUnits (worldOperator docked) ! 1)" by (simp add: docked_defs)
  have c: "Coordinate (deliveryUnits (worldOperator docked) ! 1) = \<lparr>X = 10, Y = 0\<rparr>"
    by (simp add: docked_defs)
  have h5: "snd (MoveDeliveryUnitToNearestWarehouse gridRoute 1 (worldOperator docked)) =
      Coordinate (deliveryUnits (worldOperator docked) ! 1)"
    by (simp add: MoveDeliveryUnitToNearestWarehouse_def docked_defs Let_def)
  have f: "FindEntityByCoordinate \<lparr>X = 10, Y = 0\<rparr> (worldOperator docked) = Some ?w2"
    by (simp add: FindEntityByCoordinate_def docked_defs)
  have h6: "FindEntityByCoordinate (Coordinate (deliveryUnits (worldOperator docked) ! 1))
      (worldOperator docked) = Some ?w2"
    unfolding c by (rule f)
  have b4: "moveResp ?bad = None" by simp
  have o4: "moveResp ?ok = None" by (simp add: reliable_def)
  have rr: "reachResp ?bad = Some (ApiError ''unavailable'')" by simp
  have ro: "reachResp ?ok = None" by (simp add: reliable_def)
  note bad = arrival_report [OF h1 h2 h3 b4 h5 h6, unfolded rr option.case]
  note ok = arrival_report [OF h1 h2 h3 o4 h5 h6, unfolded ro option.case]
  from bad
  obtain s' where s': "processDelivery gridRoute ?bad 1 docked = Inr s'"
    and a: "A (Operation (statistics s') ! 1) = A (Operation (statistics docked) ! 1) + 1"
    and q: "sentSince docked s' =
        [MoveUnitRequest (cargoId (deliveryUnits (worldOperator docked) ! 1))
           (word_of_int (X (Coordinate (deliveryUnits (worldOperator docked) ! 1))))
           (word_of_int (Y (Coordinate (deliveryUnits (worldOperator docked) ! 1)))),
         UnitReachedWarehouseRequest
           (word_of_int (X (Coordinate (deliveryUnits (worldOperator docked) ! 1))))
           (word_of_int (Y (Coordinate (deliveryUnits (worldOperator docked) ! 1))))
           (cargoId (deliveryUnits (worldOperator docked) ! 1)) (cargoId ?w2)
           (unitMessage (deliveryUnits (worldOperator docked) ! 1)
              (Coordinate (deliveryUnits (worldOperator docked) ! 1)) @ '' - Reached Objective.'')]"
    and b: "B (Operation (statistics s') ! 1) = B (Operation (statistics docked) ! 1) + 1"
    and m: "\<not> Metadata (deliveryUnits (worldOperator s') ! 1)"
    and later: "\<forall>xs t out'.
        (\<forall>x \<in> set xs. snd x = 1 \<longrightarrow> moveResp (fst x) \<noteq> None \<or> reachResp (fst x) \<noteq> None) \<and>
        tasks gridRoute xs s' = Inr t \<and> moveResp out' = None \<longrightarrow>
        \<not> Metadata (deliveryUnits (worldOperator t) ! 1) \<and>
        (\<exists>s''. processDelivery gridRoute out' 1 t = Inr s'' \<and>
           A (Operation (statistics s'') ! 1) = A (Operation (statistics t) ! 1) + 1 \<and>
           sentSince t s'' = sentSince docked s')"
    and round: "\<forall>env us k n t t'.
        1 \<in> set us \<and>
        (\<forall>k'. k \<le> k' \<and> k' < k + n \<longrightarrow>
           moveResp (env k' 1) \<noteq> None \<or> reachResp (env k' 1) \<noteq> None) \<and>
        rounds gridRoute env us k n s' = Inr t \<and>
        moveResp (env (k + n) 1) = None \<and>
        spawn gridRoute (env (k + n)) us t = Inr t' \<longrightarrow>
        (\<exists>pre post. sentSince t t' = pre @ sentSince docked s' @ post)"
    by (elim exE conjE)
  from ok
  obtain t0 where t0: "processDelivery gridRoute ?ok 1 docked = Inr t0"
    and tb: "B (Operation (statistics t0) ! 1) = B (Operation (statistics docked) ! 1)"
    and tm: "Metadata (deliveryUnits (worldOperator t0) ! 1)"
    by (elim exE conjE)
  have a': "A (Operation (statistics s') ! 1) = 1" using a by (simp add: docked_defs)
  have b': "B (Operation (statistics s') ! 1) = 1" using b by (simp add: docked_defs)
  have tb': "B (Operation (statistics t0) ! 1) = 0" using tb by (simp add: docked_defs)
  have q': "sentSince docked s' = [MoveUnitRequest 12 10 0,
      UnitReachedWarehouseRequest 10 0 12 2 ''U2 moving to - X:10, Y:0 - Reached Objective.'']"
    unfolding q by (simp add: docked_defs cargoId_def unitMessage_def fmt_d_def digit_def)
  have sn: "sent s' = [MoveUnitRequest 12 10 0,
      UnitReachedWarehouseRequest 10 0 12 2 ''U2 moving to - X:10, Y:0 - Reached Objective.'']"
    using q' by (simp add: sentSince_def docked_defs)
  have rd': "ready s'" using h1 s' by (rule ready_task)
  have w: "worldOperator s' = worldOperator docked"
  proof (rule task_stays [OF h1 h2 h5 _ s'])
    show "moveResp ?bad \<noteq> None \<or> reachResp ?bad \<noteq> None" by simp
  qed
  have u': "1 < length (deliveryUnits (worldOperator s'))" unfolding w by (rule h2)
  let ?t = "(afterMove gridRoute ?mv 1 s')
       \<lparr>statistics := (statistics (afterMove gridRoute ?mv 1 s'))
         \<lparr>Operation := (Operation (statistics (afterMove gridRoute ?mv 1 s')))
           [0 := AddB (Operation (statistics (afterMove gridRoute ?mv 1 s')) ! 0)]\<rparr>\<rparr>"
  have tf: "processDelivery gridRoute ?mv 1 s' = Inr ?t"
    by (subst processDelivery_ready [OF rd' u']) (simp add: Let_def)
  have l2: "length (Operation (statistics s')) = 2" using rd' by (simp add: ready_def)
  have ta: "A (Operation (statistics ?t) ! 1) = 1"
    using a' l2 by (simp add: afterMove_def Let_def)
  have ts: "sent ?t = sent s' @ [MoveUnitRequest 12 10 0]"
    by (simp add: afterMove_def Let_def w docked_defs)
  have tt: "tasks gridRoute [(?mv, 1)] s' = Inr ?t"
    using tf by simp
  have hyp: "(\<forall>x \<in> set [(?mv, 1::nat)]. snd x = 1 \<longrightarrow> moveResp (fst x) \<noteq> None \<or> reachResp (fst x) \<noteq> None) \<and>
        tasks gridRoute [(?mv, 1)] s' = Inr ?t \<and> moveResp ?bad = None"
    using tt by simp
  from later [rule_format, OF hyp]
  obtain s'' where s'': "processDelivery gridRoute ?bad 1 ?t = Inr s''"
    and a2: "A (Operation (statistics s'') ! 1) = A (Operation (statistics ?t) ! 1) + 1"
    and q2: "sentSince ?t s'' = sentSince docked s'"
    and m2: "\<not> Metadata (deliveryUnits (worldOperator ?t) ! 1)"
    by (elim exE conjE)
  have a2': "A (Operation (statistics s'') ! 1) = 2" unfolding a2 ta by simp
  from task_sent [OF s''] obtain new where new: "sent s'' = sent ?t @ new" by blast
  then have "sentSince ?t s'' = new" by (simp add: sentSince_def)
  with q2 q' new have sn2: "sent s'' = sent ?t @ [MoveUnitRequest 12 10 0,
      UnitReachedWarehouseRequest 10 0 12 2 ''U2 moving to - X:10, Y:0 - Reached Objective.'']"
    by simp
  have sn3: "sent s'' = [MoveUnitRequest 12 10 0,
      UnitReachedWarehouseRequest 10 0 12 2 ''U2 moving to - X:10, Y:0 - Reached Objective.'',
      MoveUnitRequest 12 10 0,
      MoveUnitRequest 12 10 0,
      UnitReachedWarehouseRequest 10 0 12 2 ''U2 moving to - X:10, Y:0 - Reached Objective.'']"
    unfolding sn2 ts sn by simp
  have two: "tasks gridRoute [(?bad, 1), (?mv, 1)] docked = Inr ?t"
    using s' tf by simp
  have three: "tasks gridRoute [(?bad, 1), (?mv, 1), (?bad, 1)] docked = Inr s''"
    using s' tf s'' by simp
  have sp: "s' = projr (processDelivery gridRoute ?bad 1 docked)" unfolding s' by simp
  let ?r1 = "rounds gridRoute (failing 2) [0, 1] 0 1 (projr (processDelivery gridRoute ?bad 1 docked))"
  let ?r2 = "spawn gridRoute (failing 2 1) [0, 1] (projr ?r1)"
  have "\<not> isl ?r1" by code_simp
  then have r1: "rounds gridRoute (failing 2) [0, 1] 0 1 s' = Inr (projr ?r1)" unfolding sp by simp
  have "\<not> isl ?r2" by code_simp
  then have sp2: "spawn gridRoute (failing 2 (0 + 1)) [0, 1] (projr ?r1) = Inr (projr ?r2)" by simp
  have hyp2: "1 \<in> set [0, 1 :: nat] \<and>
        (\<forall>k'. 0 \<le> k' \<and> k' < 0 + 1 \<longrightarrow>
           moveResp (failing 2 k' 1) \<noteq> None \<or> reachResp (failing 2 k' 1) \<noteq> None) \<and>
        rounds gridRoute (failing 2) [0, 1] 0 1 s' = Inr (projr ?r1) \<and>
        moveResp (failing 2 (0 + 1) 1) = None \<and>
        spawn gridRoute (failing 2 (0 + 1)) [0, 1] (projr ?r1) = Inr (projr ?r2)"
    using r1 sp2 by (simp add: failing_def)
  from round [rule_format, OF hyp2]
  have again: "\<exists>pre post. sentSince (projr ?r1) (projr ?r2) =
      pre @ [MoveUnitRequest 12 10 0,
             UnitReachedWarehouseRequest 10 0 12 2 ''U2 moving to - X:10, Y:0 - Reached Objective.''] @ post"
    unfolding q' .
  show ?thesis
    unfolding s' t0 two three sum.sel
    using h1 h3 f a' b' m sn tb' tm m2 a2' sn3 again [unfolded s' sum.sel] by blast
qed

text \<open>
  Claim C4: when the movement report of a Pending unit fails, the task counts an attempt
  and an error of "MoveUnit" and returns. The world is as the move left it, so the unit
  has the coordinate that the move returned and is still Pending; the counters of
  "UnitReachedWarehouse" are untouched; the movement request is the only request sent.
\<close>

theorem move_report_failure:
  assumes "ready s" and "u < length (deliveryUnits (worldOperator s))"
    and "\<not> Metadata (deliveryUnits (worldOperator s) ! u)"
    and "moveResp out = Some e"
  shows "\<exists>s'. processDelivery r out u s = Inr s' \<and>
      A (Operation (statistics s') ! 0) = A (Operation (statistics s) ! 0) + 1 \<and>
      B (Operation (statistics s') ! 0) = B (Operation (statistics s) ! 0) + 1 \<and>
      Operation (statistics s') ! 1 = Operation (statistics s) ! 1 \<and>
      \<not> Metadata (deliveryUnits (worldOperator s') ! u) \<and>
      worldOperator s' = fst (MoveDeliveryUnitToNearestWarehouse r u (worldOperator s)) \<and>
      Coordinate (deliveryUnits (worldOperator s') ! u) =
        snd (MoveDeliveryUnitToNearestWarehouse r u (worldOperator s)) \<and>
      sentSince s s' =
        [MoveUnitRequest (cargoId (deliveryUnits (worldOperator s) ! u))
           (word_of_int (X (Coordinate (deliveryUnits (worldOperator s') ! u))))
           (word_of_int (Y (Coordinate (deliveryUnits (worldOperator s') ! u))))]"
proof -
  have l2: "length (Operation (statistics s)) = 2" using assms(1) by (simp add: ready_def)
  show ?thesis
    using assms(2-4) l2
    by (simp add: processDelivery_ready [OF assms(1,2)] afterMove_def Let_def AddA_def AddB_def
        MoveDeliveryUnitToNearestWarehouse_def sentSince_def cargoId_def)
qed

theorem move_report_failure_witness:
  "ready scenario \<and> \<not> Metadata (deliveryUnits (worldOperator scenario) ! 2) \<and>
   Coordinate (deliveryUnits (worldOperator scenario) ! 2) = \<lparr>X = 1, Y = 2\<rparr> \<and>
   Coordinate (deliveryUnits (worldOperator (projr (processDelivery gridRoute
     \<lparr>draw = 7, moveResp = Some (ApiError ''unavailable''), reachResp = None\<rparr> 2 scenario))) ! 2) =
     \<lparr>X = 0, Y = 2\<rparr> \<and>
   \<not> Metadata (deliveryUnits (worldOperator (projr (processDelivery gridRoute
     \<lparr>draw = 7, moveResp = Some (ApiError ''unavailable''), reachResp = None\<rparr> 2 scenario))) ! 2) \<and>
   A (Operation (statistics (projr (processDelivery gridRoute
     \<lparr>draw = 7, moveResp = Some (ApiError ''unavailable''), reachResp = None\<rparr> 2 scenario))) ! 0) = 1 \<and>
   B (Operation (statistics (projr (processDelivery gridRoute
     \<lparr>draw = 7, moveResp = Some (ApiError ''unavailable''), reachResp = None\<rparr> 2 scenario))) ! 0) = 1 \<and>
   Operation (statistics (projr (processDelivery gridRoute
     \<lparr>draw = 7, moveResp = Some (ApiError ''unavailable''), reachResp = None\<rparr> 2 scenario))) ! 1 =
     \<lparr>OpName = ''UnitReachedWarehouse'', A = 0, B = 0\<rparr> \<and>
   sent (projr (processDelivery gridRoute
     \<lparr>draw = 7, moveResp = Some (ApiError ''unavailable''), reachResp = None\<rparr> 2 scenario)) =
     [MoveUnitRequest 13 0 2]"
proof -
  let ?out = "\<lparr>draw = 7, moveResp = Some (ApiError ''unavailable''), reachResp = None\<rparr>"
  have h1: "ready scenario" by (simp add: ready_def scenario_def)
  have h2: "2 < length (deliveryUnits (worldOperator scenario))" by (simp add: scenario_defs)
  have h3: "\<not> Metadata (deliveryUnits (worldOperator scenario) ! 2)" by (simp add: scenario_defs)
  have h4: "moveResp ?out = Some (ApiError ''unavailable'')" by simp
  have c0: "Coordinate (deliveryUnits (worldOperator scenario) ! 2) = \<lparr>X = 1, Y = 2\<rparr>"
    by (simp add: scenario_defs)
  have mv: "MoveDeliveryUnitToNearestWarehouse gridRoute 2 (worldOperator scenario) =
    (scenarioWorld\<lparr>deliveryUnits := (deliveryUnits scenarioWorld)
        [2 := \<lparr>ID = 13, Name = ''U3'', Coordinate = \<lparr>X = 0, Y = 2\<rparr>, Metadata = False\<rparr>]\<rparr>,
     \<lparr>X = 0, Y = 2\<rparr>)"
    by (simp add: MoveDeliveryUnitToNearestWarehouse_def scenario_defs Let_def)
  from move_report_failure [OF h1 h2 h3 h4, of gridRoute]
  obtain s' where s': "processDelivery gridRoute ?out 2 scenario = Inr s'"
    and a: "A (Operation (statistics s') ! 0) = A (Operation (statistics scenario) ! 0) + 1"
    and b: "B (Operation (statistics s') ! 0) = B (Operation (statistics scenario) ! 0) + 1"
    and o1: "Operation (statistics s') ! 1 = Operation (statistics scenario) ! 1"
    and m: "\<not> Metadata (deliveryUnits (worldOperator s') ! 2)"
    and c: "Coordinate (deliveryUnits (worldOperator s') ! 2) =
        snd (MoveDeliveryUnitToNearestWarehouse gridRoute 2 (worldOperator scenario))"
    and q: "sentSince scenario s' =
        [MoveUnitRequest (cargoId (deliveryUnits (worldOperator scenario) ! 2))
           (word_of_int (X (Coordinate (deliveryUnits (worldOperator s') ! 2))))
           (word_of_int (Y (Coordinate (deliveryUnits (worldOperator s') ! 2))))]"
    by blast
  have c': "Coordinate (deliveryUnits (worldOperator s') ! 2) = \<lparr>X = 0, Y = 2\<rparr>"
    unfolding c mv by simp
  have a': "A (Operation (statistics s') ! 0) = 1" using a by (simp add: scenario_def)
  have b': "B (Operation (statistics s') ! 0) = 1" using b by (simp add: scenario_def)
  have o1': "Operation (statistics s') ! 1 = \<lparr>OpName = ''UnitReachedWarehouse'', A = 0, B = 0\<rparr>"
    using o1 by (simp add: scenario_def)
  have sn: "sent s' = [MoveUnitRequest 13 0 2]"
    using q unfolding c' by (simp add: sentSince_def scenario_defs cargoId_def)
  show ?thesis unfolding s' sum.sel using h1 h3 c0 c' m a' b' o1' sn by blast
qed

text \<open>
  Claim C5: when the move leaves a Pending unit where it was and no warehouse is at
  its coordinate, the task returns with the counters of "UnitReachedWarehouse" untouched,
  the unit Pending and unchanged, and no arrival report sent.
\<close>

theorem routing_anomaly:
  assumes "ready s" and "u < length (deliveryUnits (worldOperator s))"
    and "\<not> Metadata (deliveryUnits (worldOperator s) ! u)"
    and "snd (MoveDeliveryUnitToNearestWarehouse r u (worldOperator s)) =
           Coordinate (deliveryUnits (worldOperator s) ! u)"
    and "FindEntityByCoordinate (Coordinate (deliveryUnits (worldOperator s) ! u)) (worldOperator s) = None"
  shows "\<exists>s'. processDelivery r out u s = Inr s' \<and>
      Operation (statistics s') ! 1 = Operation (statistics s) ! 1 \<and>
      \<not> Metadata (deliveryUnits (worldOperator s') ! u) \<and>
      deliveryUnits (worldOperator s') = deliveryUnits (worldOperator s) \<and>
      sentSince s s' =
        [MoveUnitRequest (cargoId (deliveryUnits (worldOperator s) ! u))
           (word_of_int (X (Coordinate (deliveryUnits (worldOperator s) ! u))))
           (word_of_int (Y (Coordinate (deliveryUnits (worldOperator s) ! u))))]"
proof -
  have l2: "length (Operation (statistics s)) = 2" using assms(1) by (simp add: ready_def)
  show ?thesis
    using assms(2-5) l2
    by (simp add: processDelivery_ready [OF assms(1,2)] afterMove_def Let_def AddA_def AddB_def
        MoveDeliveryUnitToNearestWarehouse_def FindEntityByCoordinate_def sentSince_def cargoId_def
        split: option.splits)
qed

theorem routing_anomaly_witness:
  "ready (scenario\<lparr>worldOperator := strandedWorld\<rparr>) \<and>
   gridRoute [] \<lparr>X = 4, Y = 5\<rparr> = \<lparr>X = 4, Y = 5\<rparr> \<and>
   FindEntityByCoordinate \<lparr>X = 4, Y = 5\<rparr> strandedWorld = None \<and>
   Operation (statistics (projr (processDelivery gridRoute (reliable (\<lambda>k u. 3) 0 0) 0
     (scenario\<lparr>worldOperator := strandedWorld\<rparr>)))) ! 1 =
     \<lparr>OpName = ''UnitReachedWarehouse'', A = 0, B = 0\<rparr> \<and>
   deliveryUnits (worldOperator (projr (processDelivery gridRoute (reliable (\<lambda>k u. 3) 0 0) 0
     (scenario\<lparr>worldOperator := strandedWorld\<rparr>)))) = deliveryUnits strandedWorld \<and>
   sent (projr (processDelivery gridRoute (reliable (\<lambda>k u. 3) 0 0) 0
     (scenario\<lparr>worldOperator := strandedWorld\<rparr>))) = [MoveUnitRequest 11 4 5]"
proof -
  let ?s = "scenario\<lparr>worldOperator := strandedWorld\<rparr>"
  let ?out = "reliable (\<lambda>k u. 3) 0 0"
  have h1: "ready ?s" by (simp add: ready_def scenario_def)
  have h2: "0 < length (deliveryUnits (worldOperator ?s))" by (simp add: strandedWorld_def)
  have h3: "\<not> Metadata (deliveryUnits (worldOperator ?s) ! 0)" by (simp add: strandedWorld_def)
  have g: "gridRoute [] \<lparr>X = 4, Y = 5\<rparr> = \<lparr>X = 4, Y = 5\<rparr>"
    by (simp add: gridRoute_def stepToward_def)
  have h4: "snd (MoveDeliveryUnitToNearestWarehouse gridRoute 0 (worldOperator ?s)) =
           Coordinate (deliveryUnits (worldOperator ?s) ! 0)"
    by (simp add: MoveDeliveryUnitToNearestWarehouse_def strandedWorld_def g Let_def)
  have f: "FindEntityByCoordinate \<lparr>X = 4, Y = 5\<rparr> strandedWorld = None"
    by (simp add: FindEntityByCoordinate_def strandedWorld_def)
  have h5: "FindEntityByCoordinate (Coordinate (deliveryUnits (worldOperator ?s) ! 0)) (worldOperator ?s) = None"
    by (simp add: FindEntityByCoordinate_def strandedWorld_def)
  from routing_anomaly [OF h1 h2 h3 h4 h5, of ?out]
  obtain s' where s': "processDelivery gridRoute ?out 0 ?s = Inr s'"
    and o1: "Operation (statistics s') ! 1 = Operation (statistics ?s) ! 1"
    and d: "deliveryUnits (worldOperator s') = deliveryUnits (worldOperator ?s)"
    and q: "sentSince ?s s' =
        [MoveUnitRequest (cargoId (deliveryUnits (worldOperator ?s) ! 0))
           (word_of_int (X (Coordinate (deliveryUnits (worldOperator ?s) ! 0))))
           (word_of_int (Y (Coordinate (deliveryUnits (worldOperator ?s) ! 0))))]"
    by blast
  have o1': "Operation (statistics s') ! 1 = \<lparr>OpName = ''UnitReachedWarehouse'', A = 0, B = 0\<rparr>"
    using o1 by (simp add: scenario_def)
  have d': "deliveryUnits (worldOperator s') = deliveryUnits strandedWorld"
    using d by simp
  have sn: "sent s' = [MoveUnitRequest 11 4 5]"
    using q by (simp add: sentSince_def scenario_def strandedWorld_def cargoId_def)
  show ?thesis unfolding s' sum.sel using h1 g f o1' d' sn by blast
qed

text \<open>
  Claim C6: \<open>Run\<close> returns a report exactly when the flags counted at the start of some
  round equal the number of units, that is, when every unit is Arrived; it returns
  after the first such round start. The report holds the number of rounds run; the time
  elapsed, which is the clock at the exit less the \<open>ExecTime\<close> of the instance, kept
  within a \<^verbatim>\<open>Duration\<close>; and the table, which is the rows it had and then one row for
  each operation: its name and its two counts as they are then, in decimal. The
  \<open>ExecTime\<close> of an instance that the constructor returned is the clock at its
  construction, and its table holds the header row.
\<close>

theorem round_loop_exit:
  "((Run r env now s = Some (Inr rep)) =
     (\<exists>n s'. rounds r env (GetDeliveryUnit (worldOperator s)) 0 n s = Inr s' \<and>
        unitsReachedObjective (GetDeliveryUnit (worldOperator s)) s' =
          length (GetDeliveryUnit (worldOperator s)) \<and>
        (\<forall>u < length (deliveryUnits (worldOperator s)).
           Metadata (deliveryUnits (worldOperator s') ! u)) \<and>
        (\<forall>m<n. \<forall>t. rounds r env (GetDeliveryUnit (worldOperator s)) 0 m s = Inr t \<longrightarrow>
           unitsReachedObjective (GetDeliveryUnit (worldOperator s)) t \<noteq>
             length (GetDeliveryUnit (worldOperator s))) \<and>
        roundsRun rep = n \<and>
        elapsed rep =
          (if now - ExecTime (statistics s) > 2 ^ 63 - 1 then 2 ^ 63 - 1
           else if now - ExecTime (statistics s) < - (2 ^ 63) then - (2 ^ 63)
           else now - ExecTime (statistics s)) \<and>
        table rep = reportTable s @
          map (\<lambda>p. [OpName p, FormatUint (A p), FormatUint (B p)]) (Operation (statistics s')) \<and>
        final rep = s'\<lparr>reportTable := table rep\<rparr>)) \<and>
   (snd (NewServiceInstance dialErr g1 g2 Populate t0) = Inr s \<longrightarrow>
      ExecTime (statistics s) = t0 \<and>
      reportTable s = [[''Operation'', ''Count'', ''Errors'']])"
proof (intro conjI impI iffI)
  assume "Run r env now s = Some (Inr rep)"
  from Run_Inr [OF this]
  obtain n s' where run: "rounds r env (GetDeliveryUnit (worldOperator s)) 0 n s = Inr s'"
    and conv: "unitsReachedObjective (GetDeliveryUnit (worldOperator s)) s' =
          length (GetDeliveryUnit (worldOperator s))"
    and before: "\<forall>m<n. \<forall>t. rounds r env (GetDeliveryUnit (worldOperator s)) 0 m s = Inr t \<longrightarrow>
           unitsReachedObjective (GetDeliveryUnit (worldOperator s)) t \<noteq>
             length (GetDeliveryUnit (worldOperator s))"
    and rep: "rep = \<lparr>roundsRun = n, elapsed = Since (ExecTime (statistics s)) now,
                table = reportTable s @ reportRows s',
                final = s'\<lparr>reportTable := reportTable s @ reportRows s'\<rparr>\<rparr>"
    by blast
  have arr: "\<forall>u < length (deliveryUnits (worldOperator s)).
           Metadata (deliveryUnits (worldOperator s') ! u)"
    using conv by (simp only: all_arrived)
  have f: "roundsRun rep = n \<and>
        elapsed rep =
          (if now - ExecTime (statistics s) > 2 ^ 63 - 1 then 2 ^ 63 - 1
           else if now - ExecTime (statistics s) < - (2 ^ 63) then - (2 ^ 63)
           else now - ExecTime (statistics s)) \<and>
        table rep = reportTable s @
          map (\<lambda>p. [OpName p, FormatUint (A p), FormatUint (B p)]) (Operation (statistics s')) \<and>
        final rep = s'\<lparr>reportTable := table rep\<rparr>"
    unfolding rep by (simp add: Since_def reportRows_def Let_def)
  from run conv arr before f
  show "\<exists>n s'. rounds r env (GetDeliveryUnit (worldOperator s)) 0 n s = Inr s' \<and>
        unitsReachedObjective (GetDeliveryUnit (worldOperator s)) s' =
          length (GetDeliveryUnit (worldOperator s)) \<and>
        (\<forall>u < length (deliveryUnits (worldOperator s)).
           Metadata (deliveryUnits (worldOperator s') ! u)) \<and>
        (\<forall>m<n. \<forall>t. rounds r env (GetDeliveryUnit (worldOperator s)) 0 m s = Inr t \<longrightarrow>
           unitsReachedObjective (GetDeliveryUnit (worldOperator s)) t \<noteq>
             length (GetDeliveryUnit (worldOperator s))) \<and>
        roundsRun rep = n \<and>
        elapsed rep =
          (if now - ExecTime (statistics s) > 2 ^ 63 - 1 then 2 ^ 63 - 1
           else if now - ExecTime (statistics s) < - (2 ^ 63) then - (2 ^ 63)
           else now - ExecTime (statistics s)) \<and>
        table rep = reportTable s @
          map (\<lambda>p. [OpName p, FormatUint (A p), FormatUint (B p)]) (Operation (statistics s')) \<and>
        final rep = s'\<lparr>reportTable := table rep\<rparr>"
    by blast
next
  assume "\<exists>n s'. rounds r env (GetDeliveryUnit (worldOperator s)) 0 n s = Inr s' \<and>
        unitsReachedObjective (GetDeliveryUnit (worldOperator s)) s' =
          length (GetDeliveryUnit (worldOperator s)) \<and>
        (\<forall>u < length (deliveryUnits (worldOperator s)).
           Metadata (deliveryUnits (worldOperator s') ! u)) \<and>
        (\<forall>m<n. \<forall>t. rounds r env (GetDeliveryUnit (worldOperator s)) 0 m s = Inr t \<longrightarrow>
           unitsReachedObjective (GetDeliveryUnit (worldOperator s)) t \<noteq>
             length (GetDeliveryUnit (worldOperator s))) \<and>
        roundsRun rep = n \<and>
        elapsed rep =
          (if now - ExecTime (statistics s) > 2 ^ 63 - 1 then 2 ^ 63 - 1
           else if now - ExecTime (statistics s) < - (2 ^ 63) then - (2 ^ 63)
           else now - ExecTime (statistics s)) \<and>
        table rep = reportTable s @
          map (\<lambda>p. [OpName p, FormatUint (A p), FormatUint (B p)]) (Operation (statistics s')) \<and>
        final rep = s'\<lparr>reportTable := table rep\<rparr>"
  then obtain n s' where run: "rounds r env (GetDeliveryUnit (worldOperator s)) 0 n s = Inr s'"
    and conv: "unitsReachedObjective (GetDeliveryUnit (worldOperator s)) s' =
          length (GetDeliveryUnit (worldOperator s))"
    and before: "\<forall>m<n. \<forall>t. rounds r env (GetDeliveryUnit (worldOperator s)) 0 m s = Inr t \<longrightarrow>
           unitsReachedObjective (GetDeliveryUnit (worldOperator s)) t \<noteq>
             length (GetDeliveryUnit (worldOperator s))"
    and f1: "roundsRun rep = n"
    and f2: "elapsed rep =
          (if now - ExecTime (statistics s) > 2 ^ 63 - 1 then 2 ^ 63 - 1
           else if now - ExecTime (statistics s) < - (2 ^ 63) then - (2 ^ 63)
           else now - ExecTime (statistics s))"
    and f3: "table rep = reportTable s @
          map (\<lambda>p. [OpName p, FormatUint (A p), FormatUint (B p)]) (Operation (statistics s'))"
    and f4: "final rep = s'\<lparr>reportTable := table rep\<rparr>"
    by (elim exE conjE)
  have "rep = \<lparr>roundsRun = n, elapsed = Since (ExecTime (statistics s)) now,
                table = reportTable s @ reportRows s',
                final = s'\<lparr>reportTable := reportTable s @ reportRows s'\<rparr>\<rparr>"
    using f1 f2 f3 f4 by (cases rep) (simp add: Since_def reportRows_def Let_def)
  then show "Run r env now s = Some (Inr rep)"
    using Run_exit [OF run conv before, of now] by simp
next
  assume c: "snd (NewServiceInstance dialErr g1 g2 Populate t0) = Inr s"
  from constructed [OF c] show "ExecTime (statistics s) = t0" by simp
  from constructed [OF c] show "reportTable s = [[''Operation'', ''Count'', ''Errors'']]" by simp
qed

theorem round_loop_exit_witness:
  "map_option (map_sum id (\<lambda>rep. (roundsRun rep, elapsed rep, table rep)))
     (Run gridRoute (reliable (\<lambda>k u. 0)) 7 scenario) =
   Some (Inr (4, 7, [[''Operation'', ''Count'', ''Errors''], [''MoveUnit'', ''9'', ''0''],
                     [''UnitReachedWarehouse'', ''3'', ''0'']])) \<and>
   unitsReachedObjective (GetDeliveryUnit (worldOperator scenario)) scenario = 0 \<and>
   length (GetDeliveryUnit (worldOperator scenario)) = 3 \<and>
   \<not> isl (snd (NewServiceInstance None 0 0 (\<lambda>w u. Inr dockedWorld) 5)) \<and>
   ExecTime (statistics (projr (snd (NewServiceInstance None 0 0 (\<lambda>w u. Inr dockedWorld) 5)))) = 5 \<and>
   map_option (map_sum id (\<lambda>rep. (roundsRun rep, elapsed rep, table rep)))
     (Run gridRoute (failing 11) 7
        (projr (snd (NewServiceInstance None 0 0 (\<lambda>w u. Inr dockedWorld) 5)))) =
   Some (Inr (12, 2, [[''Operation'', ''Count'', ''Errors''], [''MoveUnit'', ''12'', ''0''],
                      [''UnitReachedWarehouse'', ''12'', ''11'']]))"
proof -
  let ?g = "\<lambda>k u. 0 :: nat"
  let ?us = "GetDeliveryUnit (worldOperator scenario)"
  from scenario_round_4 [of ?g] obtain s
    where s: "rounds gridRoute (reliable ?g) [0, 1, 2] 0 4 scenario = Inr s"
      and c: "map (\<lambda>p. (OpName p, A p, B p)) (Operation (statistics s)) =
       [(''MoveUnit'', 9, 0), (''UnitReachedWarehouse'', 3, 0)]"
      and conv: "unitsReachedObjective [0, 1, 2] s = 3"
    by (elim exE conjE)
  have "map (\<lambda>p. [OpName p, FormatUint (A p), FormatUint (B p)]) (Operation (statistics s)) =
      map (\<lambda>t. [fst t, FormatUint (fst (snd t)), FormatUint (snd (snd t))])
        (map (\<lambda>p. (OpName p, A p, B p)) (Operation (statistics s)))"
    by (simp add: comp_def)
  then have rows: "map (\<lambda>p. [OpName p, FormatUint (A p), FormatUint (B p)]) (Operation (statistics s)) =
      [[''MoveUnit'', ''9'', ''0''], [''UnitReachedWarehouse'', ''3'', ''0'']]"
    unfolding c by (simp add: FormatUint_def digit_def)
  have h1: "rounds gridRoute (reliable ?g) ?us 0 4 scenario = Inr s"
    unfolding scenario_units by (rule s)
  have h2: "unitsReachedObjective ?us s = length ?us"
    unfolding scenario_units using conv by simp
  have h2': "\<forall>u < length (deliveryUnits (worldOperator scenario)).
      Metadata (deliveryUnits (worldOperator s) ! u)"
    using h2 by (simp only: all_arrived)
  have h3: "\<forall>m<4. \<forall>t. rounds gridRoute (reliable ?g) ?us 0 m scenario = Inr t \<longrightarrow>
      unitsReachedObjective ?us t \<noteq> length ?us"
    unfolding scenario_units by (rule scenario_before_4)
  let ?tab = "[[''Operation'', ''Count'', ''Errors''], [''MoveUnit'', ''9'', ''0''],
               [''UnitReachedWarehouse'', ''3'', ''0'']]"
  let ?rep = "\<lparr>roundsRun = 4, elapsed = 7, table = ?tab, final = s\<lparr>reportTable := ?tab\<rparr>\<rparr>"
  have f2: "elapsed ?rep =
          (if 7 - ExecTime (statistics scenario) > 2 ^ 63 - 1 then 2 ^ 63 - 1
           else if 7 - ExecTime (statistics scenario) < - (2 ^ 63) then - (2 ^ 63)
           else 7 - ExecTime (statistics scenario))"
    by (simp add: scenario_sel)
  have f3: "table ?rep = reportTable scenario @
          map (\<lambda>p. [OpName p, FormatUint (A p), FormatUint (B p)]) (Operation (statistics s))"
    unfolding rows by (simp add: scenario_sel)
  have f4: "final ?rep = s\<lparr>reportTable := table ?rep\<rparr>" by simp
  have f1: "roundsRun ?rep = 4" by simp
  have "\<exists>n s'. rounds gridRoute (reliable ?g) ?us 0 n scenario = Inr s' \<and>
        unitsReachedObjective ?us s' = length ?us \<and>
        (\<forall>u < length (deliveryUnits (worldOperator scenario)).
           Metadata (deliveryUnits (worldOperator s') ! u)) \<and>
        (\<forall>m<n. \<forall>t. rounds gridRoute (reliable ?g) ?us 0 m scenario = Inr t \<longrightarrow>
           unitsReachedObjective ?us t \<noteq> length ?us) \<and>
        roundsRun ?rep = n \<and>
        elapsed ?rep =
          (if 7 - ExecTime (statistics scenario) > 2 ^ 63 - 1 then 2 ^ 63 - 1
           else if 7 - ExecTime (statistics scenario) < - (2 ^ 63) then - (2 ^ 63)
           else 7 - ExecTime (statistics scenario)) \<and>
        table ?rep = reportTable scenario @
          map (\<lambda>p. [OpName p, FormatUint (A p), FormatUint (B p)]) (Operation (statistics s')) \<and>
        final ?rep = s'\<lparr>reportTable := table ?rep\<rparr>"
    using h1 h2 h2' h3 f1 f2 f3 f4 by blast
  then have "Run gridRoute (reliable ?g) 7 scenario = Some (Inr ?rep)"
    by (rule round_loop_exit [THEN conjunct1, THEN iffD2])
  then have main: "map_option (map_sum id (\<lambda>rep. (roundsRun rep, elapsed rep, table rep)))
     (Run gridRoute (reliable ?g) 7 scenario) = Some (Inr (4, 7, ?tab))"
    by simp
  have r0: "unitsReachedObjective ?us scenario = 0"
    unfolding scenario_units by (rule scenario_round_0)
  have l3: "length ?us = 3" unfolding scenario_units by simp
  let ?c = "snd (NewServiceInstance None 0 0 (\<lambda>w u. Inr dockedWorld) 5)"
  have built: "\<not> isl ?c" by code_simp
  then have c0: "?c = Inr (projr ?c)" by simp
  from round_loop_exit [THEN conjunct2, THEN mp, OF c0]
  have t0: "ExecTime (statistics (projr ?c)) = 5" by (rule conjunct1)
  let ?run = "Run gridRoute (failing 11) 7 (projr ?c)"
  have ret: "(case ?run of Some (Inr rep) \<Rightarrow> True | _ \<Rightarrow> False)" by code_simp
  then obtain rep where rep: "?run = Some (Inr rep)"
    by (auto split: option.splits sum.splits)
  from round_loop_exit [THEN conjunct1, THEN iffD1, OF rep]
  have "elapsed rep =
          (if 7 - ExecTime (statistics (projr ?c)) > 2 ^ 63 - 1 then 2 ^ 63 - 1
           else if 7 - ExecTime (statistics (projr ?c)) < - (2 ^ 63) then - (2 ^ 63)
           else 7 - ExecTime (statistics (projr ?c)))"
    by (elim exE conjE)
  then have el: "elapsed rep = 2" unfolding t0 by simp
  have "map_option (map_sum id (\<lambda>rep. (roundsRun rep, table rep))) ?run =
      Some (Inr (12, [[''Operation'', ''Count'', ''Errors''], [''MoveUnit'', ''12'', ''0''],
                      [''UnitReachedWarehouse'', ''12'', ''11'']]))"
    by code_simp
  with rep el have late: "map_option (map_sum id (\<lambda>rep. (roundsRun rep, elapsed rep, table rep))) ?run =
      Some (Inr (12, 2, [[''Operation'', ''Count'', ''Errors''], [''MoveUnit'', ''12'', ''0''],
                      [''UnitReachedWarehouse'', ''12'', ''11'']]))"
    by simp
  show ?thesis using main r0 l3 built t0 late by blast
qed

text \<open>
  Claim C7: a unit that is Arrived, with the numeric ids of the units distinct. Whatever
  rounds follow, the unit's node stays as it is (no task runs for it) and no request
  sent in these rounds carries its id; and whatever tasks run, for whatever units, the
  unit stays Arrived.
\<close>

theorem arrived_is_final:
  assumes "i < length (deliveryUnits (worldOperator s))"
    and "Metadata (deliveryUnits (worldOperator s) ! i)"
    and "distinct (map cargoId (deliveryUnits (worldOperator s)))"
  shows "(\<forall>env k n s'. rounds r env (GetDeliveryUnit (worldOperator s)) k n s = Inr s' \<longrightarrow>
            deliveryUnits (worldOperator s') ! i = deliveryUnits (worldOperator s) ! i \<and>
            (\<forall>q \<in> set (sentSince s s').
               CargoUnitId q \<noteq> cargoId (deliveryUnits (worldOperator s) ! i))) \<and>
         (\<forall>xs s'. tasks r xs s = Inr s' \<longrightarrow> Metadata (deliveryUnits (worldOperator s') ! i))"
proof (intro conjI allI impI)
  fix env k n s'
  assume run: "rounds r env (GetDeliveryUnit (worldOperator s)) k n s = Inr s'"
  from rounds_arrived [OF assms(2) run] obtain new
    where same: "deliveryUnits (worldOperator s') ! i = deliveryUnits (worldOperator s) ! i"
      and n: "sent s' = sent s @ new"
      and q: "\<forall>q \<in> set new. \<exists>j < length (deliveryUnits (worldOperator s)).
          j \<noteq> i \<and> CargoUnitId q = cargoId (deliveryUnits (worldOperator s) ! j)"
    by blast
  show "deliveryUnits (worldOperator s') ! i = deliveryUnits (worldOperator s) ! i" by (rule same)
  show "\<forall>q \<in> set (sentSince s s').
      CargoUnitId q \<noteq> cargoId (deliveryUnits (worldOperator s) ! i)"
  proof
    fix x assume "x \<in> set (sentSince s s')"
    then have "x \<in> set new" using n by (simp add: sentSince_def)
    with q obtain j where j: "j < length (deliveryUnits (worldOperator s))" "j \<noteq> i"
      "CargoUnitId x = cargoId (deliveryUnits (worldOperator s) ! j)" by blast
    have "map cargoId (deliveryUnits (worldOperator s)) ! j \<noteq>
          map cargoId (deliveryUnits (worldOperator s)) ! i"
      using assms(1,3) j(1,2) by (simp add: nth_eq_iff_index_eq del: nth_map)
    then show "CargoUnitId x \<noteq> cargoId (deliveryUnits (worldOperator s) ! i)"
      using j assms(1) by simp
  qed
next
  fix xs s' assume "tasks r xs s = Inr s'"
  with assms(2) show "Metadata (deliveryUnits (worldOperator s') ! i)" by (rule tasks_arrived)
qed

theorem arrived_is_final_witness:
  "1 < length (deliveryUnits (worldOperator docked)) \<and>
   Metadata (deliveryUnits (worldOperator docked) ! 0) \<and>
   distinct (map cargoId (deliveryUnits (worldOperator docked))) \<and>
   sentSince docked (projr (rounds gridRoute (reliable (\<lambda>k u. 3)) [0, 1] 0 1 docked)) =
     [MoveUnitRequest 12 10 0,
      UnitReachedWarehouseRequest 10 0 12 2 ''U2 moving to - X:10, Y:0 - Reached Objective.''] \<and>
   deliveryUnits (worldOperator (projr (rounds gridRoute (reliable (\<lambda>k u. 3)) [0, 1] 0 1 docked))) ! 0 =
     \<lparr>ID = 11, Name = ''U1'', Coordinate = \<lparr>X = 0, Y = 0\<rparr>, Metadata = True\<rparr> \<and>
   11 \<notin> set (map CargoUnitId
     (sentSince docked (projr (rounds gridRoute (reliable (\<lambda>k u. 3)) [0, 1] 0 1 docked)))) \<and>
   Metadata (deliveryUnits (worldOperator (projr (tasks gridRoute
     [(reliable (\<lambda>k u. 3) 0 0, 0)] docked))) ! 0)"
proof -
  have h1: "0 < length (deliveryUnits (worldOperator docked))" by (simp add: docked_defs)
  have h2: "Metadata (deliveryUnits (worldOperator docked) ! 0)" by (simp add: docked_defs)
  have h3: "distinct (map cargoId (deliveryUnits (worldOperator docked)))"
    by (simp add: docked_defs cargoId_def)
  have g: "GetDeliveryUnit (worldOperator docked) = [0, 1]"
    by (simp add: GetDeliveryUnit_def docked_defs upt_rec)
  have u0: "deliveryUnits (worldOperator docked) ! 0 =
      \<lparr>ID = 11, Name = ''U1'', Coordinate = \<lparr>X = 0, Y = 0\<rparr>, Metadata = True\<rparr>"
    by (simp add: docked_defs)
  have ev: "\<exists>s. rounds gridRoute (reliable (\<lambda>k u. 3)) [0, 1] 0 1 docked = Inr s \<and>
      sentSince docked s = [MoveUnitRequest 12 10 0,
        UnitReachedWarehouseRequest 10 0 12 2 ''U2 moving to - X:10, Y:0 - Reached Objective.'']"
    by (simp add: processDelivery_ready ready_def docked_defs afterMove_def Let_def reliable_def
        AddA_def AddB_def setReached_def sentSince_def unitMessage_def fmt_d_def digit_def)
  then obtain s where s: "rounds gridRoute (reliable (\<lambda>k u. 3)) [0, 1] 0 1 docked = Inr s"
    and sn: "sentSince docked s = [MoveUnitRequest 12 10 0,
        UnitReachedWarehouseRequest 10 0 12 2 ''U2 moving to - X:10, Y:0 - Reached Objective.'']"
    by blast
  have ev2: "\<exists>t. tasks gridRoute [(reliable (\<lambda>k u. 3) 0 0, 0)] docked = Inr t"
    by (simp add: processDelivery_ready ready_def docked_defs afterMove_def Let_def reliable_def
        AddA_def AddB_def setReached_def)
  then obtain t where t: "tasks gridRoute [(reliable (\<lambda>k u. 3) 0 0, 0)] docked = Inr t" by blast
  note fin = arrived_is_final [OF h1 h2 h3, of gridRoute, unfolded g]
  from fin s have same: "deliveryUnits (worldOperator s) ! 0 = deliveryUnits (worldOperator docked) ! 0"
    and nq: "\<forall>q \<in> set (sentSince docked s). CargoUnitId q \<noteq> cargoId (deliveryUnits (worldOperator docked) ! 0)"
    by blast+
  from fin t have tm: "Metadata (deliveryUnits (worldOperator t) ! 0)" by blast
  have id: "cargoId (deliveryUnits (worldOperator docked) ! 0) = 11"
    by (simp add: u0 cargoId_def)
  have l: "1 < length (deliveryUnits (worldOperator docked))" by (simp add: docked_defs)
  have nq': "11 \<notin> set (map CargoUnitId (sentSince docked s))"
    using nq unfolding id by auto
  have same': "deliveryUnits (worldOperator s) ! 0 =
      \<lparr>ID = 11, Name = ''U1'', Coordinate = \<lparr>X = 0, Y = 0\<rparr>, Metadata = True\<rparr>"
    using same unfolding u0 .
  show ?thesis unfolding s t sum.sel using l h2 h3 sn same' nq' tm by blast
qed



text \<open>
  Claim C9: the ceiling never increases. From a ceiling of at least 1 an update that
  returns gives a ceiling that is not larger, and from every ceiling of
  \<open>[0, 2^63 - 1)\<close> the update does return; the ceiling 0 is followed by 0 and its wait is
  0, so that after any sequence of tasks from the ceiling 0 the ceiling is 0 and every
  task has slept for 0.
\<close>

theorem ceiling_never_increases:
  "(1 \<le> c \<and> nextCeiling c g = Inr c' \<longrightarrow> c' \<le> c) \<and>
   (0 \<le> c \<and> c < 2 ^ 63 - 1 \<longrightarrow> (\<exists>n. nextCeiling c g = Inr n \<and> 0 \<le> n \<and> n \<le> c)) \<and>
   nextCeiling 0 g = Inr 0 \<and> waitDuration 0 = 0 \<and>
   (maxMoveWaitNumber s = 0 \<and> tasks r xs s = Inr s' \<longrightarrow>
      maxMoveWaitNumber s' = 0 \<and> slept s' = slept s @ replicate (length xs) 0)"
proof -
  have 1: "1 \<le> c \<and> nextCeiling c g = Inr c' \<longrightarrow> c' \<le> c"
    using nextCeiling_le by blast
  have 2: "0 \<le> c \<and> c < 2 ^ 63 - 1 \<longrightarrow> (\<exists>n. nextCeiling c g = Inr n \<and> 0 \<le> n \<and> n \<le> c)"
    using next_bounds [of c g] by (simp add: nextCeiling_eq)
  show ?thesis
    using 1 2 nextCeiling_zero waitDuration_zero tasks_zero_ceiling by blast
qed


theorem ceiling_never_increases_witness:
  "(1::int) \<le> 100 \<and> nextCeiling 100 100 = Inr 50 \<and> (50::int) \<le> 100 \<and>
   maxMoveWaitNumber (scenario\<lparr>maxMoveWaitNumber := 0\<rparr>) = 0 \<and>
   maxMoveWaitNumber (projr (tasks gridRoute [(reliable (\<lambda>k u. 5) 0 2, 2), (reliable (\<lambda>k u. 5) 0 0, 0)]
      (scenario\<lparr>maxMoveWaitNumber := 0\<rparr>))) = 0 \<and>
   slept (projr (tasks gridRoute [(reliable (\<lambda>k u. 5) 0 2, 2), (reliable (\<lambda>k u. 5) 0 0, 0)]
      (scenario\<lparr>maxMoveWaitNumber := 0\<rparr>))) = [0, 0]"
proof -
  let ?s = "scenario\<lparr>maxMoveWaitNumber := 0\<rparr>"
  let ?xs = "[(reliable (\<lambda>k u. 5) 0 2, 2), (reliable (\<lambda>k u. 5) 0 0, 0)]"
  have n: "nextCeiling 100 100 = Inr 50" by (simp add: nextCeiling_eq)
  have r: "ready ?s" by (simp add: ready_def scenario_def)
  have t: "\<exists>s'. tasks gridRoute ?xs ?s = Inr s'"
    by (simp add: processDelivery_ready ready_def scenario_def scenarioWorld_def reliable_def
        afterMove_def Let_def gridRoute_def stepToward_def distance_def AddA_def)
  then obtain s' where s': "tasks gridRoute ?xs ?s = Inr s'" by blast
  have z: "maxMoveWaitNumber ?s = 0" by simp
  from ceiling_never_increases [of 100 100 50 ?s gridRoute ?xs s'] n s' z
  have "maxMoveWaitNumber s' = 0 \<and> slept s' = slept ?s @ replicate (length ?xs) 0" by simp
  then show ?thesis using n s' by (simp add: scenario_def numeral_2_eq_2)
qed

text \<open>
  Claim C10: every call of \<open>Populate\<close> that the constructor makes has a warehouse count
  in \<open>[10, 255]\<close> and a unit count in \<open>[10, 1024]\<close>; it makes one call when the
  connection succeeds.
\<close>

theorem populate_counts_in_range:
  "(\<forall>c \<in> set (fst (NewServiceInstance dialErr g1 g2 Populate now)).
      10 \<le> unat (fst c) \<and> unat (fst c) \<le> 255 \<and> 10 \<le> unat (snd c) \<and> unat (snd c) \<le> 1024) \<and>
   (dialErr = None \<longrightarrow> length (fst (NewServiceInstance dialErr g1 g2 Populate now)) = 1)"
  using count_bounds [of 246 g1] count_bounds [of 1015 g2]
  by (simp add: populate_calls split: option.splits)

theorem populate_counts_in_range_witness:
  "fst (NewServiceInstance None 245 1014 (\<lambda>w u. Inr scenarioWorld) 0) = [(255, 1024)] \<and>
   fst (NewServiceInstance None 246 1015 (\<lambda>w u. Inr scenarioWorld) 0) = [(10, 10)] \<and>
   (10::nat) \<le> unat (255 :: 32 word) \<and> unat (255 :: 32 word) \<le> (255::nat)
   \<and> (10::nat) \<le> unat (1024 :: 32 word) \<and> unat (1024 :: 32 word) \<le> (1024::nat)"
proof -
  have c: "fst (NewServiceInstance None 245 1014 (\<lambda>w u. Inr scenarioWorld) 0) = [(255, 1024)]"
    by (simp add: populate_calls int64_def)
  have d: "fst (NewServiceInstance None 246 1015 (\<lambda>w u. Inr scenarioWorld) 0) = [(10, 10)]"
    by (simp add: populate_calls int64_def)
  from populate_counts_in_range [of None 245 1014 "\<lambda>w u. Inr scenarioWorld" 0]
  have "10 \<le> unat (255 :: 32 word) \<and> unat (255 :: 32 word) \<le> 255 \<and>
        10 \<le> unat (1024 :: 32 word) \<and> unat (1024 :: 32 word) \<le> 1024"
    unfolding c by simp
  then show ?thesis using c d by simp
qed

end
